theory Spec2Isabelle
  imports Main "HOL-Library.Word" "HOL-Library.Multiset"
begin

unbundle bit_operations_syntax

section \<open>Machine types, build flags and failures\<close>

text \<open>
  The allocator is 64-bit only (\<^verbatim>\<open>static_assert(sizeof(size_t) >= 8)\<close>):
  \<^verbatim>\<open>uintptr_t\<close> and \<^verbatim>\<open>size_t\<close> are 64-bit words whose arithmetic wraps.
  A \<^verbatim>\<open>CHECK\<close> aborts in every build, a \<^verbatim>\<open>DCHECK\<close> only when the build
  flag \<^verbatim>\<open>DCHECK_IS_ON\<close> is set; the flag is an explicit boolean argument (or a field
  of the environment record) of every function that contains a \<^verbatim>\<open>DCHECK\<close>. Each
  abort is a value of \<open>pa_error\<close>; so is a step whose behaviour C++ leaves undefined.
\<close>

type_synonym uintptr_t = "64 word"
type_synonym size_t = "64 word"
type_synonym pool_handle = nat

datatype pa_error =
    CHECK_failed
  | DCHECK_failed
  | NOTREACHED
  | out_of_range
  | FreelistCorruptionDetected
  | undefined_behavior

definition kGiB :: size_t where
  "kGiB = 1024 * 1024 * 1024"

section \<open>PartitionAddressSpace (partition\_address\_space.h)\<close>

text \<open>
  \<^verbatim>\<open>kPoolMaxSize\<close> comes from partition\_alloc\_constants.h, which is not among the
  sources; it is the argument \<open>kPoolMaxSize\<close> of everything below. The header
  statically asserts \<^verbatim>\<open>kConfigurablePoolSize <= kPoolMaxSize\<close>.
\<close>

definition kConfigurablePoolSize :: size_t where
  "kConfigurablePoolSize = 4 * kGiB"

definition kNonBRPPoolSize :: "size_t \<Rightarrow> size_t" where
  "kNonBRPPoolSize kPoolMaxSize = kPoolMaxSize"

definition kBRPPoolSize :: "size_t \<Rightarrow> size_t" where
  "kBRPPoolSize kPoolMaxSize = kPoolMaxSize"

definition kNonBRPPoolOffsetMask :: "size_t \<Rightarrow> uintptr_t" where
  "kNonBRPPoolOffsetMask kPoolMaxSize = kNonBRPPoolSize kPoolMaxSize - 1"

definition kNonBRPPoolBaseMask :: "size_t \<Rightarrow> uintptr_t" where
  "kNonBRPPoolBaseMask kPoolMaxSize = NOT (kNonBRPPoolOffsetMask kPoolMaxSize)"

definition kBRPPoolOffsetMask :: "size_t \<Rightarrow> uintptr_t" where
  "kBRPPoolOffsetMask kPoolMaxSize = kBRPPoolSize kPoolMaxSize - 1"

definition kBRPPoolBaseMask :: "size_t \<Rightarrow> uintptr_t" where
  "kBRPPoolBaseMask kPoolMaxSize = NOT (kBRPPoolOffsetMask kPoolMaxSize)"

definition kConfigurablePoolOffsetMask :: uintptr_t where
  "kConfigurablePoolOffsetMask = kConfigurablePoolSize - 1"

definition kConfigurablePoolBaseMask :: uintptr_t where
  "kConfigurablePoolBaseMask = NOT kConfigurablePoolOffsetMask"

text \<open>\<^verbatim>\<open>struct GigaCageSetup\<close>, without its padding. Member names lose the trailing
  underscore of the source, which an Isabelle name cannot end with.\<close>

record GigaCageSetup =
  non_brp_pool_base_address :: uintptr_t
  brp_pool_base_address :: uintptr_t
  configurable_pool_base_address :: uintptr_t
  non_brp_pool :: pool_handle
  brp_pool :: pool_handle
  configurable_pool :: pool_handle

text \<open>The default member initialisers: the state before \<^verbatim>\<open>Init()\<close> has run.\<close>

definition GigaCageSetup_initial :: "size_t \<Rightarrow> GigaCageSetup" where
  "GigaCageSetup_initial kPoolMaxSize =
     \<lparr> non_brp_pool_base_address = kNonBRPPoolOffsetMask kPoolMaxSize,
       brp_pool_base_address = kBRPPoolOffsetMask kPoolMaxSize,
       configurable_pool_base_address = kConfigurablePoolOffsetMask,
       non_brp_pool = 0,
       brp_pool = 0,
       configurable_pool = 0 \<rparr>"

definition IsInNonBRPPool :: "size_t \<Rightarrow> GigaCageSetup \<Rightarrow> uintptr_t \<Rightarrow> bool" where
  "IsInNonBRPPool kPoolMaxSize cage address \<longleftrightarrow>
     address AND kNonBRPPoolBaseMask kPoolMaxSize = non_brp_pool_base_address cage"

definition IsInBRPPool :: "size_t \<Rightarrow> GigaCageSetup \<Rightarrow> uintptr_t \<Rightarrow> bool" where
  "IsInBRPPool kPoolMaxSize cage address \<longleftrightarrow>
     address AND kBRPPoolBaseMask kPoolMaxSize = brp_pool_base_address cage"

definition IsInConfigurablePool :: "GigaCageSetup \<Rightarrow> uintptr_t \<Rightarrow> bool" where
  "IsInConfigurablePool cage address \<longleftrightarrow>
     address AND kConfigurablePoolBaseMask = configurable_pool_base_address cage"

definition IsConfigurablePoolInitialized :: "GigaCageSetup \<Rightarrow> bool" where
  "IsConfigurablePoolInitialized cage \<longleftrightarrow>
     configurable_pool_base_address cage \<noteq> kConfigurablePoolOffsetMask"

text \<open>
  \<^verbatim>\<open>GetPoolAndOffset\<close>: the chain of membership tests that classifies an address.
  \<open>USE_BACKUP_REF_PTR\<close> is the build flag of the same name. The final
  \<^verbatim>\<open>PA_NOTREACHED()\<close> branch, taken when the address is in no pool, is the failure
  \<open>NOTREACHED\<close>.
\<close>

definition GetPoolAndOffset ::
  "bool \<Rightarrow> bool \<Rightarrow> size_t \<Rightarrow> GigaCageSetup \<Rightarrow> uintptr_t \<Rightarrow> pa_error + (pool_handle \<times> uintptr_t)" where
  "GetPoolAndOffset DCHECK_IS_ON USE_BACKUP_REF_PTR kPoolMaxSize cage address =
     (if \<not> USE_BACKUP_REF_PTR \<and> DCHECK_IS_ON \<and> IsInBRPPool kPoolMaxSize cage address
      then Inl DCHECK_failed
      else if IsInNonBRPPool kPoolMaxSize cage address
      then Inr (non_brp_pool cage, address - non_brp_pool_base_address cage)
      else if USE_BACKUP_REF_PTR \<and> IsInBRPPool kPoolMaxSize cage address
      then Inr (brp_pool cage, address - brp_pool_base_address cage)
      else if IsInConfigurablePool cage address
      then Inr (configurable_pool cage, address - configurable_pool_base_address cage)
      else Inl NOTREACHED)"

definition IsManagedByPartitionAlloc ::
  "bool \<Rightarrow> bool \<Rightarrow> size_t \<Rightarrow> GigaCageSetup \<Rightarrow> uintptr_t \<Rightarrow> pa_error + bool" where
  "IsManagedByPartitionAlloc DCHECK_IS_ON USE_BACKUP_REF_PTR kPoolMaxSize cage address =
     (if \<not> USE_BACKUP_REF_PTR \<and> DCHECK_IS_ON \<and> IsInBRPPool kPoolMaxSize cage address
      then Inl DCHECK_failed
      else Inr (IsInNonBRPPool kPoolMaxSize cage address
                \<or> (USE_BACKUP_REF_PTR \<and> IsInBRPPool kPoolMaxSize cage address)
                \<or> IsInConfigurablePool cage address))"

section \<open>Pool membership before initialisation\<close>

lemma offset_mask_sentinel_unmatched:
  fixes m :: uintptr_t
  assumes "m \<noteq> 0"
  shows "a AND NOT m \<noteq> m"
proof
  assume eq: "a AND NOT m = m"
  have "m = m AND m" by simp
  also have "\<dots> = (a AND NOT m) AND m" using eq by simp
  also have "\<dots> = 0" by (simp add: and.assoc)
  finally show False using assms by simp
qed

lemma kConfigurablePoolOffsetMask_nonzero: "kConfigurablePoolOffsetMask \<noteq> 0"
  by (simp add: kConfigurablePoolOffsetMask_def kConfigurablePoolSize_def kGiB_def)

lemma pool_max_offset_mask_nonzero:
  assumes "kConfigurablePoolSize \<le> kPoolMaxSize"
  shows "kPoolMaxSize - 1 \<noteq> 0"
proof
  assume "kPoolMaxSize - 1 = 0"
  then have "kPoolMaxSize = 1" by simp
  with assms show False
    by (simp add: kConfigurablePoolSize_def kGiB_def word_le_nat_alt)
qed

text \<open>
  C6. Before \<^verbatim>\<open>Init()\<close> every pool's base address still holds its offset-mask
  sentinel. Provided \<^verbatim>\<open>kPoolMaxSize\<close> meets the header's static assertion
  \<^verbatim>\<open>kConfigurablePoolSize <= kPoolMaxSize\<close>, the membership test of each of the
  three pools (non-BRP, BRP, configurable) is then false for every address, so
  the address is reported as managed by no pool and the classification chain of
  \<^verbatim>\<open>GetPoolAndOffset\<close> ends in its no-pool branch.
\<close>

theorem C6_uninitialised_cage_contains_nothing:
  assumes "kConfigurablePoolSize \<le> kPoolMaxSize"
  shows "\<not> IsInNonBRPPool kPoolMaxSize (GigaCageSetup_initial kPoolMaxSize) address
       \<and> \<not> IsInBRPPool kPoolMaxSize (GigaCageSetup_initial kPoolMaxSize) address
       \<and> \<not> IsInConfigurablePool (GigaCageSetup_initial kPoolMaxSize) address
       \<and> IsManagedByPartitionAlloc dcheck brp kPoolMaxSize
            (GigaCageSetup_initial kPoolMaxSize) address = Inr False
       \<and> GetPoolAndOffset dcheck brp kPoolMaxSize
            (GigaCageSetup_initial kPoolMaxSize) address = Inl NOTREACHED"
proof -
  have m: "kPoolMaxSize - 1 \<noteq> 0"
    using assms by (rule pool_max_offset_mask_nonzero)
  have a: "\<not> IsInNonBRPPool kPoolMaxSize (GigaCageSetup_initial kPoolMaxSize) address"
    using offset_mask_sentinel_unmatched [OF m, of address]
    by (simp add: IsInNonBRPPool_def GigaCageSetup_initial_def kNonBRPPoolBaseMask_def
        kNonBRPPoolOffsetMask_def kNonBRPPoolSize_def)
  have b: "\<not> IsInBRPPool kPoolMaxSize (GigaCageSetup_initial kPoolMaxSize) address"
    using offset_mask_sentinel_unmatched [OF m, of address]
    by (simp add: IsInBRPPool_def GigaCageSetup_initial_def kBRPPoolBaseMask_def
        kBRPPoolOffsetMask_def kBRPPoolSize_def)
  have c: "\<not> IsInConfigurablePool (GigaCageSetup_initial kPoolMaxSize) address"
    using offset_mask_sentinel_unmatched [OF kConfigurablePoolOffsetMask_nonzero, of address]
    by (simp add: IsInConfigurablePool_def GigaCageSetup_initial_def
        kConfigurablePoolBaseMask_def)
  show ?thesis
    using a b c by (simp add: IsManagedByPartitionAlloc_def GetPoolAndOffset_def)
qed

theorem C6_uninitialised_cage_witness:
  "kConfigurablePoolSize \<le> 16 * kGiB
   \<and> \<not> IsInNonBRPPool (16 * kGiB) (GigaCageSetup_initial (16 * kGiB)) 0
   \<and> GetPoolAndOffset True False (16 * kGiB) (GigaCageSetup_initial (16 * kGiB)) 0
       = Inl NOTREACHED"
proof -
  have h: "kConfigurablePoolSize \<le> 16 * kGiB"
    by (simp add: kConfigurablePoolSize_def kGiB_def)
  show ?thesis
    using h C6_uninitialised_cage_contains_nothing [OF h, of 0 True False] by simp
qed


section \<open>PoolOffsetFreelistEntry (pool\_offset\_freelist.h)\<close>

text \<open>
  Modelled from the spec: partition\_alloc\_constants.h is not among the sources. The
  super-page is the spec's fixed power-of-two unit of 2 MiB (\<^verbatim>\<open>kSuperPageShift = 21\<close>).
\<close>

definition kSuperPageShift :: nat where
  "kSuperPageShift = 21"

definition kSuperPageSize :: size_t where
  "kSuperPageSize = push_bit kSuperPageShift 1"

definition kSuperPageOffsetMask :: uintptr_t where
  "kSuperPageOffsetMask = kSuperPageSize - 1"

definition kSuperPageBaseMask :: uintptr_t where
  "kSuperPageBaseMask = NOT kSuperPageOffsetMask"

text \<open>
  \<^verbatim>\<open>PartitionAddressSpace::PoolInfo\<close>, as the freelist code reads it. The lookup
  \<^verbatim>\<open>GetPoolInfo\<close>, the MTE tag mask \<^verbatim>\<open>kPtrTagMask\<close> (tagging.h),
  \<^verbatim>\<open>PartitionPageSize()\<close> and the configuration macros are declared in headers that
  are not among the sources; they are the fields of the environment record that
  every function below receives.
\<close>

record PoolInfo =
  handle :: pool_handle
  base :: uintptr_t
  base_mask :: uintptr_t
  offset :: uintptr_t

record PartitionAllocEnv =
  dcheck_is_on :: bool
  has_freelist_shadow_entry :: bool
  kPtrTagMask :: uintptr_t
  PartitionPageSize :: uintptr_t
  GetPoolInfo :: "uintptr_t \<Rightarrow> PoolInfo"

text \<open>
  Modelled from the spec: \<^verbatim>\<open>SlotStartPtr2Addr\<close> (tagging.h, not among the sources)
  strips the MTE tag bits, which the spec places in the high byte of a pointer.
\<close>

definition SlotStartPtr2Addr :: "PartitionAllocEnv \<Rightarrow> uintptr_t \<Rightarrow> uintptr_t" where
  "SlotStartPtr2Addr env ptr = ptr AND NOT (kPtrTagMask env)"

text \<open>
  The two words of an entry, \<^verbatim>\<open>next_\<close> and \<^verbatim>\<open>shadow_\<close>. The address of the
  entry itself (\<^verbatim>\<open>this\<close>) is passed separately.
\<close>

record PoolOffsetFreelistEntry =
  entry_next :: uintptr_t
  entry_shadow :: uintptr_t

definition kNullptrOffset :: uintptr_t where
  "kNullptrOffset = 0"

definition EncodeToOffset :: "PartitionAllocEnv \<Rightarrow> uintptr_t \<Rightarrow> pa_error + uintptr_t" where
  "EncodeToOffset env ptr =
     (if ptr = 0 then Inr kNullptrOffset
      else
        let addr = ptr;
            pool_info = GetPoolInfo env addr;
            tagged_offset = addr AND (kPtrTagMask env OR NOT (base_mask pool_info))
        in if dcheck_is_on env
              \<and> tagged_offset \<noteq> (offset pool_info OR (addr AND kPtrTagMask env))
           then Inl DCHECK_failed
           else Inr tagged_offset)"

definition DecodeFromOffset ::
  "PartitionAllocEnv \<Rightarrow> uintptr_t \<Rightarrow> PoolInfo \<Rightarrow> pa_error + uintptr_t" where
  "DecodeFromOffset env tagged_offset pool_info =
     (if dcheck_is_on env \<and> tagged_offset = kNullptrOffset then Inl DCHECK_failed
      else Inr (base pool_info OR tagged_offset))"

definition IsEncodedNextPtrZero :: "PoolOffsetFreelistEntry \<Rightarrow> bool" where
  "IsEncodedNextPtrZero e \<longleftrightarrow> entry_next e = kNullptrOffset"

definition IsWellFormed ::
  "PartitionAllocEnv \<Rightarrow> bool \<Rightarrow> PoolInfo \<Rightarrow> uintptr_t \<Rightarrow> PoolOffsetFreelistEntry
     \<Rightarrow> uintptr_t \<Rightarrow> bool" where
  "IsWellFormed env for_thread_cache pool_info here here_entry nxt =
     (let here_address = SlotStartPtr2Addr env here;
          next_address = SlotStartPtr2Addr env nxt;
          no_bit_in_pool_base_mask = (entry_next here_entry AND base_mask pool_info = 0);
          not_in_metadata = (PartitionPageSize env \<le> next_address AND kSuperPageOffsetMask);
          shadow_ptr_ok = (if has_freelist_shadow_entry env
                           then NOT (entry_next here_entry) = entry_shadow here_entry
                           else True)
      in if for_thread_cache
         then no_bit_in_pool_base_mask \<and> shadow_ptr_ok \<and> not_in_metadata
         else
           let same_super_page = (here_address AND kSuperPageBaseMask
                                  = next_address AND kSuperPageBaseMask)
           in no_bit_in_pool_base_mask \<and> shadow_ptr_ok \<and> same_super_page \<and> not_in_metadata)"

definition GetNextInternal ::
  "PartitionAllocEnv \<Rightarrow> bool \<Rightarrow> bool \<Rightarrow> uintptr_t \<Rightarrow> PoolOffsetFreelistEntry \<Rightarrow> size_t
     \<Rightarrow> pa_error + uintptr_t" where
  "GetNextInternal env crash_on_corruption for_thread_cache this entry slot_size =
     (if IsEncodedNextPtrZero entry then Inr 0
      else
        let pool_info = GetPoolInfo env this
        in case DecodeFromOffset env (entry_next entry) pool_info of
             Inl e \<Rightarrow> Inl e
           | Inr ret \<Rightarrow>
               if \<not> IsWellFormed env for_thread_cache pool_info this entry ret
               then (if crash_on_corruption then Inl FreelistCorruptionDetected else Inr 0)
               else Inr ret)"

definition GetNextForThreadCache ::
  "PartitionAllocEnv \<Rightarrow> bool \<Rightarrow> uintptr_t \<Rightarrow> PoolOffsetFreelistEntry \<Rightarrow> size_t
     \<Rightarrow> pa_error + uintptr_t" where
  "GetNextForThreadCache env crash_on_corruption this entry slot_size =
     GetNextInternal env crash_on_corruption True this entry slot_size"

definition GetNext ::
  "PartitionAllocEnv \<Rightarrow> uintptr_t \<Rightarrow> PoolOffsetFreelistEntry \<Rightarrow> size_t \<Rightarrow> pa_error + uintptr_t" where
  "GetNext env this entry slot_size = GetNextInternal env True False this entry slot_size"

definition SetNext ::
  "PartitionAllocEnv \<Rightarrow> uintptr_t \<Rightarrow> PoolOffsetFreelistEntry \<Rightarrow> uintptr_t
     \<Rightarrow> pa_error + PoolOffsetFreelistEntry" where
  "SetNext env this e entry =
     (if dcheck_is_on env \<and> entry \<noteq> 0
         \<and> SlotStartPtr2Addr env this AND kSuperPageBaseMask
            \<noteq> SlotStartPtr2Addr env entry AND kSuperPageBaseMask
      then Inl FreelistCorruptionDetected
      else case EncodeToOffset env entry of
             Inl err \<Rightarrow> Inl err
           | Inr off \<Rightarrow>
               Inr (e\<lparr>entry_next := off,
                      entry_shadow := (if has_freelist_shadow_entry env then NOT off
                                       else entry_shadow e)\<rparr>))"

text \<open>
  A \<open>PoolInfo\<close> describes the pool of an address when the address passes the pool's
  mask test and the offset is the distance from the pool base.
\<close>

definition pool_info_describes :: "PoolInfo \<Rightarrow> uintptr_t \<Rightarrow> bool" where
  "pool_info_describes pool_info address \<longleftrightarrow>
     address AND base_mask pool_info = base pool_info
     \<and> offset pool_info = address - base pool_info"

lemma word_minus_and_eq_and_not:
  fixes a :: uintptr_t
  shows "a - (a AND m) = a AND NOT m"
proof -
  have "a - (a AND m) = a AND NOT (a AND m)"
    by (rule disjunctive_diff) (simp add: bit_and_iff)
  also have "\<dots> = a AND NOT m"
    by (rule bit_word_eqI) (auto simp: bit_simps)
  finally show ?thesis .
qed

lemma tagged_offset_split_raw:
  fixes a :: uintptr_t
  shows "a AND (t OR NOT m) = (a AND NOT m) OR (a AND t)"
  by (rule bit_word_eqI) (auto simp: bit_simps)

lemma tagged_offset_split_untagged:
  fixes a :: uintptr_t
  shows "a AND (t OR NOT m) = ((a AND NOT t) AND NOT m) OR (a AND t)"
  by (rule bit_word_eqI) (auto simp: bit_simps)

lemma rebuild_raw:
  fixes a :: uintptr_t
  shows "(a AND m) OR (a AND (t OR NOT m)) = a"
  by (rule bit_word_eqI) (auto simp: bit_simps)

lemma rebuild_untagged:
  fixes a :: uintptr_t
  shows "((a AND NOT t) AND m) OR (a AND (t OR NOT m)) = a"
  by (rule bit_word_eqI) (auto simp: bit_simps)

text \<open>
  C4 (amended). Let \<open>ptr\<close> be a non-null pointer and let the pool information looked
  up for it describe a pool that contains \<open>ptr\<close>, or contains \<open>ptr\<close> with its MTE tag
  bits stripped. Then \<^verbatim>\<open>EncodeToOffset\<close> stores the in-pool offset with the tag bits
  preserved, and \<^verbatim>\<open>DecodeFromOffset\<close> of that link with the same pool information
  yields \<open>ptr\<close> again, provided that in a build with DCHECKs the link is not the
  null offset 0 (it is 0 exactly for an untagged pool base address).
\<close>

theorem C4_decode_encode_roundtrip:
  assumes nz: "ptr \<noteq> 0"
    and pi: "pool_info = GetPoolInfo env ptr"
    and mem: "pool_info_describes pool_info ptr
              \<or> pool_info_describes pool_info (SlotStartPtr2Addr env ptr)"
    and off: "dcheck_is_on env \<longrightarrow>
              ptr AND (kPtrTagMask env OR NOT (base_mask pool_info)) \<noteq> kNullptrOffset"
  shows "EncodeToOffset env ptr = Inr (ptr AND (kPtrTagMask env OR NOT (base_mask pool_info)))
       \<and> DecodeFromOffset env (ptr AND (kPtrTagMask env OR NOT (base_mask pool_info))) pool_info
           = Inr ptr"
proof -
  let ?t = "kPtrTagMask env" and ?m = "base_mask pool_info"
  from mem have chk: "ptr AND (?t OR NOT ?m) = (offset pool_info OR (ptr AND ?t))"
    and dec: "base pool_info OR (ptr AND (?t OR NOT ?m)) = ptr"
  proof -
    from mem show "ptr AND (?t OR NOT ?m) = (offset pool_info OR (ptr AND ?t))"
    proof
      assume "pool_info_describes pool_info ptr"
      then have "offset pool_info = ptr AND NOT ?m"
        by (metis pool_info_describes_def word_minus_and_eq_and_not)
      then show ?thesis by (simp add: tagged_offset_split_raw)
    next
      assume "pool_info_describes pool_info (SlotStartPtr2Addr env ptr)"
      then have "offset pool_info = (ptr AND NOT ?t) AND NOT ?m"
        by (metis pool_info_describes_def SlotStartPtr2Addr_def word_minus_and_eq_and_not)
      then show ?thesis by (simp add: tagged_offset_split_untagged)
    qed
    from mem show "base pool_info OR (ptr AND (?t OR NOT ?m)) = ptr"
    proof
      assume "pool_info_describes pool_info ptr"
      then have "base pool_info = ptr AND ?m" by (simp add: pool_info_describes_def)
      then show ?thesis by (simp add: rebuild_raw)
    next
      assume "pool_info_describes pool_info (SlotStartPtr2Addr env ptr)"
      then have "base pool_info = (ptr AND NOT ?t) AND ?m"
        by (simp add: pool_info_describes_def SlotStartPtr2Addr_def)
      then show ?thesis by (simp add: rebuild_untagged)
    qed
  qed
  have "EncodeToOffset env ptr = Inr (ptr AND (?t OR NOT ?m))"
    using nz chk pi by (simp add: EncodeToOffset_def Let_def)
  moreover have "DecodeFromOffset env (ptr AND (?t OR NOT ?m)) pool_info = Inr ptr"
    using off dec by (simp add: DecodeFromOffset_def)
  ultimately show ?thesis by simp
qed


text \<open>
  A concrete environment: one 16 GiB pool at \<open>0x100000000000\<close>, MTE tags in the high
  byte, 16 KiB partition pages, shadow entries present.
\<close>

definition sample_GetPoolInfo :: "uintptr_t \<Rightarrow> uintptr_t \<Rightarrow> PoolInfo" where
  "sample_GetPoolInfo tag_mask address =
     \<lparr> handle = 1,
       base = 0x100000000000,
       base_mask = NOT (16 * kGiB - 1),
       offset = (address AND NOT tag_mask) - 0x100000000000 \<rparr>"

definition sample_env :: "bool \<Rightarrow> PartitionAllocEnv" where
  "sample_env dcheck =
     \<lparr> dcheck_is_on = dcheck,
       has_freelist_shadow_entry = True,
       kPtrTagMask = 0xFF00000000000000,
       PartitionPageSize = 0x4000,
       GetPoolInfo = sample_GetPoolInfo 0xFF00000000000000 \<rparr>"

theorem C4_roundtrip_witness:
  "(0x0300100000204000 :: uintptr_t) \<noteq> 0
   \<and> pool_info_describes (GetPoolInfo (sample_env True) 0x0300100000204000)
        (SlotStartPtr2Addr (sample_env True) 0x0300100000204000)
   \<and> EncodeToOffset (sample_env True) 0x0300100000204000 = Inr 0x0300000000204000
   \<and> DecodeFromOffset (sample_env True) 0x0300000000204000
        (GetPoolInfo (sample_env True) 0x0300100000204000) = Inr 0x0300100000204000"
proof -
  let ?p = "0x0300100000204000 :: uintptr_t"
  have nz: "?p \<noteq> 0" by simp
  have mem: "pool_info_describes (GetPoolInfo (sample_env True) ?p)
               (SlotStartPtr2Addr (sample_env True) ?p)"
    by (simp add: pool_info_describes_def sample_env_def sample_GetPoolInfo_def
        SlotStartPtr2Addr_def kGiB_def)
  have enc: "?p AND (kPtrTagMask (sample_env True)
               OR NOT (base_mask (GetPoolInfo (sample_env True) ?p))) = 0x0300000000204000"
    by (simp add: sample_env_def sample_GetPoolInfo_def kGiB_def)
  have off: "dcheck_is_on (sample_env True) \<longrightarrow>
             ?p AND (kPtrTagMask (sample_env True)
               OR NOT (base_mask (GetPoolInfo (sample_env True) ?p))) \<noteq> kNullptrOffset"
    unfolding enc by (simp add: kNullptrOffset_def)
  show ?thesis
    using C4_decode_encode_roundtrip [OF nz refl disjI2 [OF mem] off] nz mem
    unfolding enc by simp
qed

text \<open>
  The base address of the pool is a non-null pointer in the pool; its link is the
  null offset, which \<^verbatim>\<open>DecodeFromOffset\<close> refuses in a build with DCHECKs.
\<close>

theorem C4_pool_base_counterexample:
  "(0x100000000000 :: uintptr_t) \<noteq> 0
   \<and> pool_info_describes (GetPoolInfo (sample_env True) 0x100000000000) 0x100000000000
   \<and> EncodeToOffset (sample_env True) 0x100000000000 = Inr kNullptrOffset
   \<and> DecodeFromOffset (sample_env True) kNullptrOffset
        (GetPoolInfo (sample_env True) 0x100000000000) = Inl DCHECK_failed"
  by (simp add: pool_info_describes_def sample_env_def sample_GetPoolInfo_def kGiB_def
      EncodeToOffset_def DecodeFromOffset_def kNullptrOffset_def)

lemma flip_bit_changes:
  fixes w :: uintptr_t
  assumes "i < 64"
  shows "flip_bit i w \<noteq> w"
proof
  assume "flip_bit i w = w"
  then have "bit (flip_bit i w) i = bit w i" by simp
  with assms show False by (simp add: bit_flip_bit_iff)
qed

text \<open>
  C5 (amended). With shadow entries present, take a well-formed entry whose
  \<^verbatim>\<open>next_\<close> is not the null offset and flip any single bit \<open>i < 64\<close> of
  \<^verbatim>\<open>next_\<close>, leaving \<^verbatim>\<open>shadow_\<close> as it was. If the flipped word is not the null
  offset 0, the next \<^verbatim>\<open>GetNextInternal\<close> fails the well-formedness check: it signals
  freelist corruption when \<open>crash_on_corruption\<close> is set and returns null
  otherwise, for thread-cache and regular chains alike.
\<close>

theorem C5_bit_flip_detected:
  assumes shadow: "has_freelist_shadow_entry env"
    and wf: "IsWellFormed env for_thread_cache (GetPoolInfo env this) this e
               (base (GetPoolInfo env this) OR entry_next e)"
    and nz: "entry_next e \<noteq> kNullptrOffset"
    and i: "i < 64"
    and nz': "flip_bit i (entry_next e) \<noteq> kNullptrOffset"
  shows "GetNextInternal env crash_on_corruption for_thread_cache this
           (e\<lparr>entry_next := flip_bit i (entry_next e)\<rparr>) slot_size
         = (if crash_on_corruption then Inl FreelistCorruptionDetected else Inr 0)"
proof -
  let ?e' = "e\<lparr>entry_next := flip_bit i (entry_next e)\<rparr>"
  from wf shadow have sh: "entry_shadow e = NOT (entry_next e)"
    by (auto simp: IsWellFormed_def Let_def split: if_splits)
  have "NOT (flip_bit i (entry_next e)) \<noteq> entry_shadow e"
    using flip_bit_changes [OF i, of "entry_next e"] sh by simp
  then have bad: "\<not> IsWellFormed env for_thread_cache (GetPoolInfo env this) this ?e' nxt" for nxt
    using shadow by (simp add: IsWellFormed_def Let_def)
  have dec: "DecodeFromOffset env (flip_bit i (entry_next e)) (GetPoolInfo env this)
             = Inr (base (GetPoolInfo env this) OR flip_bit i (entry_next e))"
    using nz' by (simp add: DecodeFromOffset_def)
  show ?thesis
    using nz' bad dec by (simp add: GetNextInternal_def IsEncodedNextPtrZero_def Let_def)
qed

definition sample_entry :: PoolOffsetFreelistEntry where
  "sample_entry = \<lparr> entry_next = 0x204040, entry_shadow = NOT 0x204040 \<rparr>"

theorem C5_bit_flip_witness:
  "has_freelist_shadow_entry (sample_env True)
   \<and> GetNextInternal (sample_env True) True False 0x100000204000 sample_entry 64
       = Inr 0x100000204040
   \<and> GetNextInternal (sample_env True) True False 0x100000204000
       (sample_entry\<lparr>entry_next := flip_bit 6 (entry_next sample_entry)\<rparr>) 64
       = Inl FreelistCorruptionDetected"
proof -
  have sh: "has_freelist_shadow_entry (sample_env True)" by (simp add: sample_env_def)
  have wf: "IsWellFormed (sample_env True) False (GetPoolInfo (sample_env True) 0x100000204000)
              0x100000204000 sample_entry
              (base (GetPoolInfo (sample_env True) 0x100000204000) OR entry_next sample_entry)"
    by (simp add: IsWellFormed_def sample_env_def sample_GetPoolInfo_def sample_entry_def
        SlotStartPtr2Addr_def kSuperPageOffsetMask_def kSuperPageBaseMask_def
        kSuperPageSize_def kSuperPageShift_def kGiB_def)
  have nz: "entry_next sample_entry \<noteq> kNullptrOffset"
    by (simp add: sample_entry_def kNullptrOffset_def)
  have i: "(6::nat) < 64" by simp
  have nz': "flip_bit 6 (entry_next sample_entry) \<noteq> kNullptrOffset"
    by (simp add: sample_entry_def kNullptrOffset_def flip_bit_eq_xor)
  have ok: "GetNextInternal (sample_env True) True False 0x100000204000 sample_entry 64
            = Inr 0x100000204040"
    using wf nz
    by (simp add: GetNextInternal_def IsEncodedNextPtrZero_def DecodeFromOffset_def
        sample_env_def sample_GetPoolInfo_def sample_entry_def kNullptrOffset_def)
  show ?thesis
    using C5_bit_flip_detected [OF sh wf nz i nz', of True 64] sh ok by simp
qed

text \<open>
  An entry whose next is the first slot after the metadata of the pool's first
  super-page has a single bit set in \<^verbatim>\<open>next_\<close>. Flipping that bit gives the null
  offset, and \<^verbatim>\<open>GetNext\<close> (which crashes on corruption) returns null before any
  check is made.
\<close>

definition first_slot_entry :: PoolOffsetFreelistEntry where
  "first_slot_entry = \<lparr> entry_next = 0x4000, entry_shadow = NOT 0x4000 \<rparr>"

theorem C5_flip_to_null_counterexample:
  "IsWellFormed (sample_env True) False (GetPoolInfo (sample_env True) 0x100000008000)
     0x100000008000 first_slot_entry 0x100000004000
   \<and> GetNext (sample_env True) 0x100000008000 first_slot_entry 64 = Inr 0x100000004000
   \<and> flip_bit 14 (entry_next first_slot_entry) = kNullptrOffset
   \<and> entry_shadow (first_slot_entry\<lparr>entry_next := flip_bit 14 (entry_next first_slot_entry)\<rparr>)
       = entry_shadow first_slot_entry
   \<and> GetNext (sample_env True) 0x100000008000
       (first_slot_entry\<lparr>entry_next := flip_bit 14 (entry_next first_slot_entry)\<rparr>) 64
       = Inr 0"
  by (simp add: GetNext_def GetNextInternal_def IsEncodedNextPtrZero_def DecodeFromOffset_def
      IsWellFormed_def sample_env_def sample_GetPoolInfo_def first_slot_entry_def
      SlotStartPtr2Addr_def kSuperPageOffsetMask_def kSuperPageBaseMask_def
      kSuperPageSize_def kSuperPageShift_def kGiB_def kNullptrOffset_def flip_bit_eq_xor)



section \<open>Scheduler-Loop Quarantine (scheduler\_loop\_quarantine.h, .cc)\<close>

text \<open>
  The allocator root (\<^verbatim>\<open>PartitionRoot\<close>) and the slot-span metadata are collaborators
  whose code is not among the sources. A slot span is identified by the address
  of its metadata. The calls the quarantine makes that change something outside
  the quarantine are recorded, in order, as events: the synchronous free
  \<^verbatim>\<open>FreeNoHooksImmediate(object, slot_span, slot_start)\<close>, the zapping
  \<^verbatim>\<open>SecureMemset(object, kFreedByte, usable_size)\<close> and the ref-count hook
  \<^verbatim>\<open>PreReleaseFromAllocator\<close> of the slot at \<open>slot_start\<close> of \<open>slot_span\<close>.
\<close>

datatype allocator_event =
    FreeNoHooksImmediate uintptr_t uintptr_t uintptr_t
  | SecureMemset uintptr_t size_t
  | PreReleaseFromAllocator uintptr_t uintptr_t

text \<open>
  The pure queries the quarantine makes of the allocator root.
  \<open>IsDirectMappedBucket\<close> is asked of the bucket of a slot span,
  \<open>FromSlotStart\<close> and \<open>FromObject\<close> are the two
  \<^verbatim>\<open>SlotSpanMetadata\<close> lookups.
\<close>

record PartitionRoot =
  IsDirectMappedBucket :: "uintptr_t \<Rightarrow> bool"
  GetSlotUsableSize :: "uintptr_t \<Rightarrow> size_t"
  SlotStartToObject :: "uintptr_t \<Rightarrow> uintptr_t"
  FromSlotStart :: "uintptr_t \<Rightarrow> uintptr_t"
  FromObject :: "uintptr_t \<Rightarrow> uintptr_t"
  brp_enabled :: bool

text \<open>The atomic statistics of \<^verbatim>\<open>SchedulerLoopQuarantineRoot\<close>; all are \<^verbatim>\<open>size_t\<close>.\<close>

record SchedulerLoopQuarantineRoot =
  size_in_bytes :: size_t
  count :: size_t
  cumulative_count :: size_t
  cumulative_size_in_bytes :: size_t
  quarantine_miss_count :: size_t

record QuarantineSlot =
  slot_start :: uintptr_t
  usable_size :: size_t

text \<open>
  The fields of a branch that its operations read or write. \<open>slots\<close> is the vector
  \<^verbatim>\<open>slots_\<close>, whose back is the last element of the list.
  \<open>to_be_freed_working_memory\<close> tells whether the cached scratch array is present.
  The value that \<^verbatim>\<open>random_.RandUint32()\<close> returns in a call is an argument of
  that call.

  \<^verbatim>\<open>root_\<close> is a pointer member without an initialiser, and \<^verbatim>\<open>Configure\<close> is the
  only function that assigns it; \<open>root_assigned\<close> tells whether it has. The object
  it then points to is the component \<open>root\<close> of the state below.
\<close>

record SchedulerLoopQuarantineBranch =
  enable_quarantine :: bool
  enable_zapping :: bool
  leak_on_destruction :: bool
  pause_quarantine :: int
  slots :: "QuarantineSlot list"
  branch_size_in_bytes :: size_t
  branch_capacity_in_bytes :: size_t
  to_be_freed_working_memory :: bool
  root_assigned :: bool

text \<open>One branch, the root it belongs to, and the events seen so far.\<close>

record slq_state =
  branch :: SchedulerLoopQuarantineBranch
  root :: SchedulerLoopQuarantineRoot
  events :: "allocator_event list"

definition kMaxFreeTimesPerPurge :: nat where
  "kMaxFreeTimesPerPurge = 1024"

text \<open>
  Reading through \<^verbatim>\<open>root_\<close> before it has been assigned is undefined behaviour.
  \<^verbatim>\<open>enable_quarantine_\<close> starts as \<open>false\<close> and is written by \<^verbatim>\<open>Configure\<close> alone, in
  the call that assigns \<^verbatim>\<open>root_\<close>: on a branch with \<^verbatim>\<open>enable_quarantine_\<close> set the
  pointer has been assigned. \<^verbatim>\<open>Quarantine\<close> reads through it only past its test of
  \<^verbatim>\<open>enable_quarantine_\<close>; \<^verbatim>\<open>PurgeInternal\<close> and \<^verbatim>\<open>PurgeInternalWithDefferedFree\<close>
  read through it whoever calls them.
\<close>

definition root_readable :: "SchedulerLoopQuarantineBranch \<Rightarrow> bool" where
  "root_readable b \<longleftrightarrow> root_assigned b \<or> enable_quarantine b"

text \<open>
  The free of one evicted entry, and the two \<^verbatim>\<open>PA_DCHECK\<close>s that precede it in
  \<^verbatim>\<open>PurgeInternal\<close> and \<^verbatim>\<open>BatchFree\<close>.
\<close>

definition free_slot :: "PartitionRoot \<Rightarrow> uintptr_t \<Rightarrow> allocator_event" where
  "free_slot allocator_root s =
     FreeNoHooksImmediate (SlotStartToObject allocator_root s) (FromSlotStart allocator_root s) s"

definition slot_dchecks_hold :: "PartitionRoot \<Rightarrow> uintptr_t \<Rightarrow> bool" where
  "slot_dchecks_hold allocator_root s \<longleftrightarrow>
     FromSlotStart allocator_root s = FromObject allocator_root (SlotStartToObject allocator_root s)
     \<and> s \<noteq> 0"

text \<open>
  The \<^verbatim>\<open>while\<close> loop of \<^verbatim>\<open>PurgeInternal\<close>. Reading the back of an empty vector
  is a failed \<^verbatim>\<open>PA_DCHECK\<close> in a build with DCHECKs and undefined behaviour
  otherwise.
\<close>

function PurgeInternal_loop ::
  "bool \<Rightarrow> PartitionRoot \<Rightarrow> size_t \<Rightarrow> QuarantineSlot list \<Rightarrow> size_t \<Rightarrow> allocator_event list
     \<Rightarrow> 64 word \<Rightarrow> 64 word
     \<Rightarrow> pa_error + (QuarantineSlot list \<times> size_t \<times> allocator_event list \<times> 64 word \<times> 64 word)" where
  "PurgeInternal_loop DCHECK_IS_ON allocator_root target_size_in_bytes slots_v size_v evs
       freed_count freed_size_in_bytes =
     (if target_size_in_bytes < size_v then
        (if slots_v = [] then Inl (if DCHECK_IS_ON then DCHECK_failed else undefined_behavior)
         else
           let to_free = last slots_v;
               to_free_size = usable_size to_free
           in if DCHECK_IS_ON \<and> \<not> slot_dchecks_hold allocator_root (slot_start to_free)
              then Inl DCHECK_failed
              else PurgeInternal_loop DCHECK_IS_ON allocator_root target_size_in_bytes
                     (butlast slots_v) (size_v - to_free_size)
                     (evs @ [free_slot allocator_root (slot_start to_free)])
                     (freed_count + 1) (freed_size_in_bytes + to_free_size))
      else Inr (slots_v, size_v, evs, freed_count, freed_size_in_bytes))"
  by pat_completeness auto
termination
  by (relation "measure (\<lambda>(d, a, t, sl, sz, ev, fc, fs). length sl)") auto

definition PurgeInternal ::
  "bool \<Rightarrow> PartitionRoot \<Rightarrow> size_t \<Rightarrow> slq_state \<Rightarrow> pa_error + slq_state" where
  "PurgeInternal DCHECK_IS_ON allocator_root target_size_in_bytes s =
     (case PurgeInternal_loop DCHECK_IS_ON allocator_root target_size_in_bytes
             (slots (branch s)) (branch_size_in_bytes (branch s)) (events s) 0 0 of
        Inl e \<Rightarrow> Inl e
      | Inr (slots_v, size_v, evs, freed_count, freed_size_in_bytes) \<Rightarrow>
          if \<not> root_readable (branch s) then Inl undefined_behavior
          else
            Inr (s\<lparr> branch := (branch s)\<lparr> slots := slots_v, branch_size_in_bytes := size_v \<rparr>,
                   root := (root s)\<lparr> size_in_bytes := size_in_bytes (root s) - freed_size_in_bytes,
                                      count := count (root s) - freed_count \<rparr>,
                   events := evs \<rparr>))"

text \<open>
  The loop of \<^verbatim>\<open>PurgeInternalWithDefferedFree\<close>: it only collects the slot starts,
  and stops after \<^verbatim>\<open>kMaxFreeTimesPerPurge\<close> entries whatever the byte count is.
\<close>

function PurgeInternalWithDefferedFree_loop ::
  "bool \<Rightarrow> size_t \<Rightarrow> QuarantineSlot list \<Rightarrow> size_t \<Rightarrow> uintptr_t list \<Rightarrow> 64 word
     \<Rightarrow> pa_error + (QuarantineSlot list \<times> size_t \<times> uintptr_t list \<times> 64 word)" where
  "PurgeInternalWithDefferedFree_loop DCHECK_IS_ON target_size_in_bytes slots_v size_v
       to_be_freed freed_size_in_bytes =
     (if target_size_in_bytes < size_v then
        (if slots_v = [] then Inl (if DCHECK_IS_ON then DCHECK_failed else undefined_behavior)
         else
           let to_free = last slots_v;
               to_free_size = usable_size to_free;
               to_be_freed' = to_be_freed @ [slot_start to_free]
           in if kMaxFreeTimesPerPurge \<le> length to_be_freed'
              then Inr (butlast slots_v, size_v - to_free_size, to_be_freed',
                        freed_size_in_bytes + to_free_size)
              else PurgeInternalWithDefferedFree_loop DCHECK_IS_ON target_size_in_bytes
                     (butlast slots_v) (size_v - to_free_size) to_be_freed'
                     (freed_size_in_bytes + to_free_size))
      else Inr (slots_v, size_v, to_be_freed, freed_size_in_bytes))"
  by pat_completeness auto
termination
  by (relation "measure (\<lambda>(d, t, sl, sz, tbf, fs). length sl)") auto

definition PurgeInternalWithDefferedFree ::
  "bool \<Rightarrow> size_t \<Rightarrow> slq_state \<Rightarrow> pa_error + (slq_state \<times> uintptr_t list)" where
  "PurgeInternalWithDefferedFree DCHECK_IS_ON target_size_in_bytes s =
     (case PurgeInternalWithDefferedFree_loop DCHECK_IS_ON target_size_in_bytes
             (slots (branch s)) (branch_size_in_bytes (branch s)) [] 0 of
        Inl e \<Rightarrow> Inl e
      | Inr (slots_v, size_v, to_be_freed, freed_size_in_bytes) \<Rightarrow>
          if \<not> root_readable (branch s) then Inl undefined_behavior
          else
            Inr (s\<lparr> branch := (branch s)\<lparr> slots := slots_v, branch_size_in_bytes := size_v \<rparr>,
                   root := (root s)\<lparr> size_in_bytes := size_in_bytes (root s) - freed_size_in_bytes,
                                      count := count (root s) - of_nat (length to_be_freed) \<rparr> \<rparr>,
                 to_be_freed))"

fun BatchFree ::
  "bool \<Rightarrow> PartitionRoot \<Rightarrow> uintptr_t list \<Rightarrow> allocator_event list
     \<Rightarrow> pa_error + allocator_event list" where
  "BatchFree DCHECK_IS_ON allocator_root [] evs = Inr evs"
| "BatchFree DCHECK_IS_ON allocator_root (s # to_be_freed) evs =
     (if DCHECK_IS_ON \<and> \<not> slot_dchecks_hold allocator_root s then Inl DCHECK_failed
      else BatchFree DCHECK_IS_ON allocator_root to_be_freed (evs @ [free_slot allocator_root s]))"

definition QuarantineEpilogue ::
  "bool \<Rightarrow> PartitionRoot \<Rightarrow> bool \<Rightarrow> uintptr_t \<Rightarrow> uintptr_t \<Rightarrow> uintptr_t \<Rightarrow> size_t
     \<Rightarrow> allocator_event list" where
  "QuarantineEpilogue ENABLE_BACKUP_REF_PTR_SUPPORT allocator_root zapping object slot_span
       slot_start_v usable_size_v =
     (if zapping then [SecureMemset object usable_size_v] else [])
     @ (if ENABLE_BACKUP_REF_PTR_SUPPORT \<and> brp_enabled allocator_root
        then [PreReleaseFromAllocator slot_start_v slot_span] else [])"

text \<open>\<^verbatim>\<open>push_back\<close> followed by the swap with the randomly chosen position.\<close>

definition push_and_swap ::
  "32 word \<Rightarrow> QuarantineSlot \<Rightarrow> QuarantineSlot list \<Rightarrow> QuarantineSlot list" where
  "push_and_swap rand entry slots_v =
     (let pushed = slots_v @ [entry];
          random_index = unat rand mod length pushed;
          back_index = length pushed - 1
      in pushed[random_index := pushed ! back_index, back_index := pushed ! random_index])"

definition root_add_stats :: "size_t \<Rightarrow> SchedulerLoopQuarantineRoot \<Rightarrow> SchedulerLoopQuarantineRoot" where
  "root_add_stats usable_size_v r =
     r\<lparr> count := count r + 1,
        size_in_bytes := size_in_bytes r + usable_size_v,
        cumulative_count := cumulative_count r + 1,
        cumulative_size_in_bytes := cumulative_size_in_bytes r + usable_size_v \<rparr>"

text \<open>
  \<^verbatim>\<open>SchedulerLoopQuarantineBranch<false>::Quarantine\<close>, the mutex-guarded branch with
  the two-phase purge.
\<close>

definition Quarantine_shared ::
  "bool \<Rightarrow> bool \<Rightarrow> PartitionRoot \<Rightarrow> 32 word \<Rightarrow> uintptr_t \<Rightarrow> uintptr_t \<Rightarrow> uintptr_t \<Rightarrow> size_t
     \<Rightarrow> slq_state \<Rightarrow> pa_error + slq_state" where
  "Quarantine_shared DCHECK_IS_ON ENABLE_BACKUP_REF_PTR_SUPPORT allocator_root rand object slot_span
       slot_start_v usable_size_v s =
     (if \<not> enable_quarantine (branch s) \<or> pause_quarantine (branch s) \<noteq> 0
         \<or> IsDirectMappedBucket allocator_root slot_span
      then Inr (s\<lparr> events := events s @ [FreeNoHooksImmediate object slot_span slot_start_v] \<rparr>)
      else if DCHECK_IS_ON \<and> usable_size_v \<noteq> GetSlotUsableSize allocator_root slot_span
      then Inl DCHECK_failed
      else
        let capacity_in_bytes = branch_capacity_in_bytes (branch s)
        in if capacity_in_bytes < usable_size_v
           then Inr (s\<lparr> events := events s @ [FreeNoHooksImmediate object slot_span slot_start_v],
                         root := (root s)\<lparr> quarantine_miss_count :=
                                               quarantine_miss_count (root s) + 1 \<rparr> \<rparr>)
           else
             case PurgeInternalWithDefferedFree DCHECK_IS_ON (capacity_in_bytes - usable_size_v) s of
               Inl e \<Rightarrow> Inl e
             | Inr (s1, to_be_freed) \<Rightarrow>
                 (case BatchFree DCHECK_IS_ON allocator_root to_be_freed (events s1) of
                    Inl e \<Rightarrow> Inl e
                  | Inr evs \<Rightarrow>
                      Inr (s1\<lparr> branch := (branch s1)
                                   \<lparr> branch_size_in_bytes :=
                                       branch_size_in_bytes (branch s1) + usable_size_v,
                                     slots := push_and_swap rand
                                       \<lparr> slot_start = slot_start_v, usable_size = usable_size_v \<rparr>
                                       (slots (branch s1)),
                                     to_be_freed_working_memory := True \<rparr>,
                                root := root_add_stats usable_size_v (root s1),
                                events := evs @ QuarantineEpilogue ENABLE_BACKUP_REF_PTR_SUPPORT
                                            allocator_root (enable_zapping (branch s1)) object
                                            slot_span slot_start_v usable_size_v \<rparr>)))"

text \<open>\<^verbatim>\<open>SchedulerLoopQuarantineBranch<true>::Quarantine\<close>, the thread-bound branch.\<close>

definition Quarantine_thread_bound ::
  "bool \<Rightarrow> bool \<Rightarrow> PartitionRoot \<Rightarrow> 32 word \<Rightarrow> uintptr_t \<Rightarrow> uintptr_t \<Rightarrow> uintptr_t \<Rightarrow> size_t
     \<Rightarrow> slq_state \<Rightarrow> pa_error + slq_state" where
  "Quarantine_thread_bound DCHECK_IS_ON ENABLE_BACKUP_REF_PTR_SUPPORT allocator_root rand object
       slot_span slot_start_v usable_size_v s =
     (if \<not> enable_quarantine (branch s) \<or> pause_quarantine (branch s) \<noteq> 0
         \<or> IsDirectMappedBucket allocator_root slot_span
      then Inr (s\<lparr> events := events s @ [FreeNoHooksImmediate object slot_span slot_start_v] \<rparr>)
      else if DCHECK_IS_ON \<and> usable_size_v \<noteq> GetSlotUsableSize allocator_root slot_span
      then Inl DCHECK_failed
      else
        let capacity_in_bytes = branch_capacity_in_bytes (branch s)
        in if capacity_in_bytes < usable_size_v
           then Inr (s\<lparr> events := events s @ [FreeNoHooksImmediate object slot_span slot_start_v],
                         root := (root s)\<lparr> quarantine_miss_count :=
                                               quarantine_miss_count (root s) + 1 \<rparr> \<rparr>)
           else
             case PurgeInternal DCHECK_IS_ON allocator_root (capacity_in_bytes - usable_size_v) s of
               Inl e \<Rightarrow> Inl e
             | Inr s1 \<Rightarrow>
                 Inr (s1\<lparr> branch := (branch s1)
                              \<lparr> branch_size_in_bytes :=
                                  branch_size_in_bytes (branch s1) + usable_size_v,
                                slots := push_and_swap rand
                                  \<lparr> slot_start = slot_start_v, usable_size = usable_size_v \<rparr>
                                  (slots (branch s1)) \<rparr>,
                           root := root_add_stats usable_size_v (root s1),
                           events := events s1 @ QuarantineEpilogue ENABLE_BACKUP_REF_PTR_SUPPORT
                                       allocator_root (enable_zapping (branch s1)) object
                                       slot_span slot_start_v usable_size_v \<rparr>))"

definition Quarantine ::
  "bool \<Rightarrow> bool \<Rightarrow> bool \<Rightarrow> PartitionRoot \<Rightarrow> 32 word \<Rightarrow> uintptr_t \<Rightarrow> uintptr_t \<Rightarrow> uintptr_t
     \<Rightarrow> size_t \<Rightarrow> slq_state \<Rightarrow> pa_error + slq_state" where
  "Quarantine thread_bound DCHECK_IS_ON ENABLE_BACKUP_REF_PTR_SUPPORT allocator_root rand object
       slot_span slot_start_v usable_size_v s =
     (if thread_bound
      then Quarantine_thread_bound DCHECK_IS_ON ENABLE_BACKUP_REF_PTR_SUPPORT allocator_root rand
             object slot_span slot_start_v usable_size_v s
      else Quarantine_shared DCHECK_IS_ON ENABLE_BACKUP_REF_PTR_SUPPORT allocator_root rand
             object slot_span slot_start_v usable_size_v s)"

text \<open>
  \<^verbatim>\<open>Purge()\<close> is \<^verbatim>\<open>PurgeInternal(0)\<close> under the lock; \<^verbatim>\<open>shrink_to_fit\<close> changes no
  value. No test guards the call, so on a branch that was never configured it
  reads through the unassigned \<^verbatim>\<open>root_\<close>.
\<close>

definition Purge :: "bool \<Rightarrow> PartitionRoot \<Rightarrow> slq_state \<Rightarrow> pa_error + slq_state" where
  "Purge DCHECK_IS_ON allocator_root s = PurgeInternal DCHECK_IS_ON allocator_root 0 s"

definition SetCapacityInBytes :: "size_t \<Rightarrow> slq_state \<Rightarrow> slq_state" where
  "SetCapacityInBytes capacity_in_bytes s =
     s\<lparr> branch := (branch s)\<lparr> branch_capacity_in_bytes := capacity_in_bytes \<rparr> \<rparr>"


declare PurgeInternal_loop.simps [simp del]
declare PurgeInternalWithDefferedFree_loop.simps [simp del]

subsection \<open>Consistent branches\<close>

text \<open>
  A branch is consistent when \<^verbatim>\<open>branch_size_in_bytes_\<close> is the sum of the usable
  sizes of its entries and, in a build with DCHECKs, every entry passes the
  checks made when it is freed.
\<close>

definition slots_total :: "QuarantineSlot list \<Rightarrow> nat" where
  "slots_total sl = sum_list (map (\<lambda>x. unat (usable_size x)) sl)"

definition branch_consistent ::
  "bool \<Rightarrow> PartitionRoot \<Rightarrow> SchedulerLoopQuarantineBranch \<Rightarrow> bool" where
  "branch_consistent DCHECK_IS_ON allocator_root b \<longleftrightarrow>
     unat (branch_size_in_bytes b) = slots_total (slots b)
     \<and> (DCHECK_IS_ON \<longrightarrow>
          (\<forall>x \<in> set (slots b). slot_dchecks_hold allocator_root (slot_start x)))"

lemma slots_total_simps [simp]:
  "slots_total [] = 0"
  "slots_total [x] = unat (usable_size x)"
  "slots_total (xs @ [x]) = slots_total xs + unat (usable_size x)"
  by (simp_all add: slots_total_def)

lemma slots_total_append: "slots_total (xs @ ys) = slots_total xs + slots_total ys"
  by (simp add: slots_total_def)

lemma slots_total_take_drop: "slots_total (take k xs) + slots_total (drop k xs) = slots_total xs"
  using slots_total_append [of "take k xs" "drop k xs"] by simp

lemma slots_total_zero:
  assumes "slots_total xs = 0" and "\<forall>x \<in> set xs. usable_size x \<noteq> 0"
  shows "xs = []"
proof (cases xs)
  case Nil
  then show ?thesis .
next
  case (Cons x ys)
  with assms(1) have "unat (usable_size x) = 0" by (simp add: slots_total_def)
  then have "usable_size x = 0" by (simp add: unat_eq_0)
  with assms(2) Cons show ?thesis by simp
qed

lemma unat_sub_le:
  fixes a b :: "64 word"
  assumes "unat b \<le> unat a"
  shows "unat (a - b) = unat a - unat b"
  using assms by (simp add: unat_sub word_le_nat_alt)

lemma PurgeInternal_loop_consistent:
  assumes "unat sz = slots_total sl"
    and "D \<longrightarrow> (\<forall>x \<in> set sl. slot_dchecks_hold ar (slot_start x))"
  shows "\<exists>k \<le> length sl.
           PurgeInternal_loop D ar t sl sz evs fc fs
             = Inr (take k sl, of_nat (slots_total (take k sl)),
                    evs @ map (\<lambda>x. free_slot ar (slot_start x)) (rev (drop k sl)),
                    fc + of_nat (length sl - k),
                    fs + of_nat (slots_total (drop k sl)))
           \<and> slots_total (take k sl) \<le> unat t"
  using assms
proof (induction sl arbitrary: sz evs fc fs rule: rev_induct)
  case Nil
  then have "sz = 0" by (simp add: unat_eq_0)
  then show ?case by (simp add: PurgeInternal_loop.simps)
next
  case (snoc x xs)
  show ?case
  proof (cases "t < sz")
    case False
    then have le: "unat sz \<le> unat t" by (simp add: word_le_nat_alt not_less)
    have "of_nat (slots_total (xs @ [x])) = sz"
      unfolding snoc.prems(1) [symmetric] by simp
    with False le snoc.prems(1) show ?thesis
      by (intro exI [of _ "length (xs @ [x])"]) (simp add: PurgeInternal_loop.simps)
  next
    case True
    have sub: "unat (sz - usable_size x) = slots_total xs"
      using snoc.prems(1) by (simp add: unat_sub_le)
    have dc: "D \<longrightarrow> (\<forall>y \<in> set xs. slot_dchecks_hold ar (slot_start y))"
      using snoc.prems(2) by simp
    from snoc.IH [OF sub dc, of "evs @ [free_slot ar (slot_start x)]" "fc + 1"
        "fs + usable_size x"]
    obtain k where k: "k \<le> length xs"
      and eq: "PurgeInternal_loop D ar t xs (sz - usable_size x)
                 (evs @ [free_slot ar (slot_start x)]) (fc + 1) (fs + usable_size x)
               = Inr (take k xs, of_nat (slots_total (take k xs)),
                      (evs @ [free_slot ar (slot_start x)])
                        @ map (\<lambda>x. free_slot ar (slot_start x)) (rev (drop k xs)),
                      fc + 1 + of_nat (length xs - k),
                      fs + usable_size x + of_nat (slots_total (drop k xs)))"
      and le: "slots_total (take k xs) \<le> unat t"
      by blast
    have step: "PurgeInternal_loop D ar t (xs @ [x]) sz evs fc fs
                = PurgeInternal_loop D ar t xs (sz - usable_size x)
                    (evs @ [free_slot ar (slot_start x)]) (fc + 1) (fs + usable_size x)"
      using True snoc.prems(2) by (subst PurgeInternal_loop.simps) (auto simp add: Let_def)
    have cnt: "fc + 1 + of_nat (length xs - k) = fc + of_nat (length (xs @ [x]) - k)"
      using k by (simp add: Suc_diff_le)
    have szs: "fs + usable_size x + of_nat (slots_total (drop k xs))
               = fs + of_nat (slots_total (drop k (xs @ [x])))"
      using k by simp
    show ?thesis
      using k le step eq cnt szs by (intro exI [of _ k]) simp
  qed
qed

lemma PurgeInternalWithDefferedFree_loop_consistent:
  assumes "unat sz = slots_total sl"
  shows "\<exists>k \<le> length sl.
           PurgeInternalWithDefferedFree_loop D t sl sz tbf fs
             = Inr (take k sl, of_nat (slots_total (take k sl)),
                    tbf @ map slot_start (rev (drop k sl)),
                    fs + of_nat (slots_total (drop k sl)))
           \<and> (length tbf + (length sl - k) < kMaxFreeTimesPerPurge
                \<longrightarrow> slots_total (take k sl) \<le> unat t)
           \<and> (length tbf < kMaxFreeTimesPerPurge
                \<longrightarrow> length tbf + (length sl - k) \<le> kMaxFreeTimesPerPurge)"
  using assms
proof (induction sl arbitrary: sz tbf fs rule: rev_induct)
  case Nil
  then have "sz = 0" by (simp add: unat_eq_0)
  then show ?case by (simp add: PurgeInternalWithDefferedFree_loop.simps)
next
  case (snoc x xs)
  show ?case
  proof (cases "t < sz")
    case False
    then have le: "unat sz \<le> unat t" by (simp add: word_le_nat_alt not_less)
    have "of_nat (slots_total (xs @ [x])) = sz"
      unfolding snoc.prems(1) [symmetric] by simp
    with False le snoc.prems(1) show ?thesis
      by (intro exI [of _ "length (xs @ [x])"])
        (simp add: PurgeInternalWithDefferedFree_loop.simps)
  next
    case True
    have sub: "unat (sz - usable_size x) = slots_total xs"
      using snoc.prems(1) by (simp add: unat_sub_le)
    show ?thesis
    proof (cases "kMaxFreeTimesPerPurge \<le> length (tbf @ [slot_start x])")
      case True
      have "PurgeInternalWithDefferedFree_loop D t (xs @ [x]) sz tbf fs
            = Inr (xs, sz - usable_size x, tbf @ [slot_start x], fs + usable_size x)"
        using \<open>t < sz\<close> True
        by (subst PurgeInternalWithDefferedFree_loop.simps) (simp add: Let_def)
      moreover have "of_nat (slots_total xs) = sz - usable_size x"
        unfolding sub [symmetric] by simp
      ultimately show ?thesis
        using True by (intro exI [of _ "length xs"]) simp
    next
      case False
      from snoc.IH [OF sub, of "tbf @ [slot_start x]" "fs + usable_size x"]
      obtain k where k: "k \<le> length xs"
        and eq: "PurgeInternalWithDefferedFree_loop D t xs (sz - usable_size x)
                   (tbf @ [slot_start x]) (fs + usable_size x)
                 = Inr (take k xs, of_nat (slots_total (take k xs)),
                        (tbf @ [slot_start x]) @ map slot_start (rev (drop k xs)),
                        fs + usable_size x + of_nat (slots_total (drop k xs)))"
        and le: "length (tbf @ [slot_start x]) + (length xs - k) < kMaxFreeTimesPerPurge
                 \<longrightarrow> slots_total (take k xs) \<le> unat t"
        and cap: "length (tbf @ [slot_start x]) < kMaxFreeTimesPerPurge
                 \<longrightarrow> length (tbf @ [slot_start x]) + (length xs - k) \<le> kMaxFreeTimesPerPurge"
        by blast
      have step: "PurgeInternalWithDefferedFree_loop D t (xs @ [x]) sz tbf fs
                  = PurgeInternalWithDefferedFree_loop D t xs (sz - usable_size x)
                      (tbf @ [slot_start x]) (fs + usable_size x)"
        using \<open>t < sz\<close> False
        by (subst PurgeInternalWithDefferedFree_loop.simps) (simp add: Let_def)
      have szs: "fs + usable_size x + of_nat (slots_total (drop k xs))
                 = fs + of_nat (slots_total (drop k (xs @ [x])))"
        using k by simp
      have len: "length (tbf @ [slot_start x]) + (length xs - k)
                 = length tbf + (length (xs @ [x]) - k)"
        using k by simp
      show ?thesis
        using k le cap step eq szs len False by (intro exI [of _ k]) simp
    qed
  qed
qed

lemma BatchFree_ok:
  assumes "D \<longrightarrow> (\<forall>s \<in> set tbf. slot_dchecks_hold ar s)"
  shows "BatchFree D ar tbf evs = Inr (evs @ map (free_slot ar) tbf)"
  using assms by (induction tbf arbitrary: evs) auto

lemma push_and_swap_mset:
  "mset (push_and_swap rand entry sl) = mset sl + {#entry#}"
proof -
  let ?p = "sl @ [entry]"
  have r: "unat rand mod length ?p < length ?p" by simp
  have b: "length ?p - 1 < length ?p" by simp
  have "mset (?p[unat rand mod length ?p := ?p ! (length ?p - 1),
                 length ?p - 1 := ?p ! (unat rand mod length ?p)]) = mset ?p"
    using mset_swap [OF b r] .
  then show ?thesis by (simp add: push_and_swap_def Let_def)
qed

lemma slots_total_mset: "slots_total sl = sum_mset (image_mset (\<lambda>x. unat (usable_size x)) (mset sl))"
  by (simp add: slots_total_def flip: sum_mset_sum_list)

lemma push_and_swap_total:
  "slots_total (push_and_swap rand entry sl) = slots_total sl + unat (usable_size entry)"
  by (simp add: slots_total_mset push_and_swap_mset)

lemma push_and_swap_set:
  "set (push_and_swap rand entry sl) = insert entry (set sl)"
proof -
  have "set_mset (mset (push_and_swap rand entry sl)) = set_mset (mset sl + {#entry#})"
    by (simp only: push_and_swap_mset)
  then show ?thesis by simp
qed

lemma slots_total_take_le: "slots_total (take k sl) \<le> slots_total sl"
  using slots_total_take_drop [of k sl] by simp

lemma unat_of_nat_total_take:
  assumes "unat (sz :: 64 word) = slots_total sl"
  shows "unat (of_nat (slots_total (take k sl)) :: 64 word) = slots_total (take k sl)"
proof -
  have "unat sz < 2 ^ 64" using unsigned_less [of sz] by simp
  with assms slots_total_take_le [of k sl] have "slots_total (take k sl) < 2 ^ 64" by simp
  then show ?thesis by (simp add: unat_of_nat)
qed

lemma PurgeInternal_consistent:
  assumes "branch_consistent D ar (branch s)" and "root_readable (branch s)"
  shows "\<exists>k \<le> length (slots (branch s)).
           PurgeInternal D ar t s
             = Inr (s\<lparr> branch := (branch s)
                         \<lparr> slots := take k (slots (branch s)),
                           branch_size_in_bytes :=
                             of_nat (slots_total (take k (slots (branch s)))) \<rparr>,
                       root := (root s)
                         \<lparr> size_in_bytes := size_in_bytes (root s)
                             - of_nat (slots_total (drop k (slots (branch s)))),
                           count := count (root s) - of_nat (length (slots (branch s)) - k) \<rparr>,
                       events := events s
                         @ map (\<lambda>x. free_slot ar (slot_start x)) (rev (drop k (slots (branch s)))) \<rparr>)
           \<and> slots_total (take k (slots (branch s))) \<le> unat t"
proof -
  from assms(1) have a: "unat (branch_size_in_bytes (branch s)) = slots_total (slots (branch s))"
    and b: "D \<longrightarrow> (\<forall>x \<in> set (slots (branch s)). slot_dchecks_hold ar (slot_start x))"
    by (simp_all add: branch_consistent_def)
  from PurgeInternal_loop_consistent [OF a b, of t "events s" 0 0]
  obtain k where "k \<le> length (slots (branch s))"
    and "PurgeInternal_loop D ar t (slots (branch s)) (branch_size_in_bytes (branch s))
           (events s) 0 0
         = Inr (take k (slots (branch s)), of_nat (slots_total (take k (slots (branch s)))),
                events s @ map (\<lambda>x. free_slot ar (slot_start x)) (rev (drop k (slots (branch s)))),
                0 + of_nat (length (slots (branch s)) - k),
                0 + of_nat (slots_total (drop k (slots (branch s)))))"
    and "slots_total (take k (slots (branch s))) \<le> unat t"
    by blast
  with assms(2) show ?thesis
    by (intro exI [of _ k]) (simp add: PurgeInternal_def)
qed

lemma PurgeInternalWithDefferedFree_consistent:
  assumes "branch_consistent D ar (branch s)" and "root_readable (branch s)"
  shows "\<exists>k \<le> length (slots (branch s)).
           PurgeInternalWithDefferedFree D t s
             = Inr (s\<lparr> branch := (branch s)
                         \<lparr> slots := take k (slots (branch s)),
                           branch_size_in_bytes :=
                             of_nat (slots_total (take k (slots (branch s)))) \<rparr>,
                       root := (root s)
                         \<lparr> size_in_bytes := size_in_bytes (root s)
                             - of_nat (slots_total (drop k (slots (branch s)))),
                           count := count (root s) - of_nat (length (slots (branch s)) - k) \<rparr> \<rparr>,
                    map slot_start (rev (drop k (slots (branch s)))))
           \<and> (length (slots (branch s)) - k < kMaxFreeTimesPerPurge
                \<longrightarrow> slots_total (take k (slots (branch s))) \<le> unat t)
           \<and> length (slots (branch s)) - k \<le> kMaxFreeTimesPerPurge"
proof -
  from assms(1) have a: "unat (branch_size_in_bytes (branch s)) = slots_total (slots (branch s))"
    by (simp add: branch_consistent_def)
  from PurgeInternalWithDefferedFree_loop_consistent [OF a, of D t "[]" 0]
  obtain k where "k \<le> length (slots (branch s))"
    and "PurgeInternalWithDefferedFree_loop D t (slots (branch s))
           (branch_size_in_bytes (branch s)) [] 0
         = Inr (take k (slots (branch s)), of_nat (slots_total (take k (slots (branch s)))),
                [] @ map slot_start (rev (drop k (slots (branch s)))),
                0 + of_nat (slots_total (drop k (slots (branch s)))))"
    and "length ([] :: uintptr_t list) + (length (slots (branch s)) - k) < kMaxFreeTimesPerPurge
         \<longrightarrow> slots_total (take k (slots (branch s))) \<le> unat t"
    and "length ([] :: uintptr_t list) < kMaxFreeTimesPerPurge
         \<longrightarrow> length ([] :: uintptr_t list) + (length (slots (branch s)) - k)
             \<le> kMaxFreeTimesPerPurge"
    by blast
  with assms(2) show ?thesis
    by (intro exI [of _ k]) (simp add: PurgeInternalWithDefferedFree_def kMaxFreeTimesPerPurge_def)
qed

text \<open>The number of entries the two-phase purge of a call takes out of the branch.\<close>

definition deferred_evictions :: "bool \<Rightarrow> size_t \<Rightarrow> slq_state \<Rightarrow> nat" where
  "deferred_evictions DCHECK_IS_ON target_size_in_bytes s =
     (case PurgeInternalWithDefferedFree DCHECK_IS_ON target_size_in_bytes s of
        Inl e \<Rightarrow> 0
      | Inr (s1, to_be_freed) \<Rightarrow> length to_be_freed)"

lemma insert_fits:
  fixes sz1 usable cap :: "64 word"
  assumes "usable \<le> cap" and "unat sz1 \<le> unat (cap - usable)"
  shows "sz1 + usable \<le> cap"
proof -
  have c: "unat (cap - usable) = unat cap - unat usable"
    using assms(1) by (simp add: unat_sub)
  have u: "unat usable \<le> unat cap" using assms(1) by (simp add: word_le_nat_alt)
  have "unat cap < 2 ^ 64" using unsigned_less [of cap] by simp
  with c u assms(2) have "unat sz1 + unat usable < 2 ^ LENGTH(64)" by simp
  then have "unat (sz1 + usable) = unat sz1 + unat usable"
    using unat_add_lem [of sz1 usable] by blast
  with c u assms(2) show ?thesis by (simp add: word_le_nat_alt)
qed

text \<open>
  Consistency is an invariant: it holds of an empty branch, and \<^verbatim>\<open>Quarantine\<close> keeps
  it whenever the entry it is given passes the checks made of freed entries (and,
  for a shared branch, the two-phase purge does not stop at its cap).
\<close>

lemma empty_branch_consistent:
  "slots b = [] \<Longrightarrow> branch_size_in_bytes b = 0 \<Longrightarrow> branch_consistent D ar b"
  by (simp add: branch_consistent_def)

lemma Quarantine_keeps_consistent:
  assumes cons: "branch_consistent D ar (branch s)"
    and new: "D \<longrightarrow> slot_dchecks_hold ar ss"
    and cap: "thread_bound
              \<or> deferred_evictions D (branch_capacity_in_bytes (branch s) - usable) s
                  < kMaxFreeTimesPerPurge"
    and res: "Quarantine thread_bound D B ar rand object slot_span ss usable s = Inr s'"
  shows "branch_consistent D ar (branch s')"
proof (cases "\<not> enable_quarantine (branch s) \<or> pause_quarantine (branch s) \<noteq> 0
              \<or> IsDirectMappedBucket ar slot_span
              \<or> branch_capacity_in_bytes (branch s) < usable")
  case True
  with res have "branch s' = branch s"
    by (auto simp: Quarantine_def Quarantine_thread_bound_def Quarantine_shared_def Let_def
        split: if_splits)
  with cons show ?thesis by simp
next
  case False
  then have en: "enable_quarantine (branch s)" and np: "pause_quarantine (branch s) = 0"
    and ndm: "\<not> IsDirectMappedBucket ar slot_span"
    and fit: "usable \<le> branch_capacity_in_bytes (branch s)"
    by (simp_all add: not_less)
  from en have rd: "root_readable (branch s)" by (simp add: root_readable_def)
  let ?sl = "slots (branch s)" and ?t = "branch_capacity_in_bytes (branch s) - usable"
  from cons have a: "unat (branch_size_in_bytes (branch s)) = slots_total ?sl"
    and dc: "D \<longrightarrow> (\<forall>x \<in> set ?sl. slot_dchecks_hold ar (slot_start x))"
    by (simp_all add: branch_consistent_def)
  have key: "branch_consistent D ar
               ((branch s)\<lparr> slots := push_and_swap rand \<lparr>slot_start = ss, usable_size = usable\<rparr>
                                        (take k ?sl),
                             branch_size_in_bytes := of_nat (slots_total (take k ?sl)) + usable,
                             to_be_freed_working_memory := w \<rparr>)"
    if le: "slots_total (take k ?sl) \<le> unat ?t" for k w
  proof -
    have u: "unat (of_nat (slots_total (take k ?sl)) :: 64 word) = slots_total (take k ?sl)"
      using a by (rule unat_of_nat_total_take)
    have c: "unat ?t = unat (branch_capacity_in_bytes (branch s)) - unat usable"
      using fit by (simp add: unat_sub)
    have ul: "unat usable \<le> unat (branch_capacity_in_bytes (branch s))"
      using fit by (simp add: word_le_nat_alt)
    have "unat (branch_capacity_in_bytes (branch s)) < 2 ^ 64"
      using unsigned_less [of "branch_capacity_in_bytes (branch s)"] by simp
    with c ul le u
    have "unat (of_nat (slots_total (take k ?sl)) :: 64 word) + unat usable < 2 ^ LENGTH(64)"
      by simp
    then have "unat ((of_nat (slots_total (take k ?sl)) :: 64 word) + usable)
               = unat (of_nat (slots_total (take k ?sl)) :: 64 word) + unat usable"
      using unat_add_lem [of "of_nat (slots_total (take k ?sl)) :: 64 word" usable] by blast
    with u have sz: "unat ((of_nat (slots_total (take k ?sl)) :: 64 word) + usable)
                     = slots_total (take k ?sl) + unat usable" by simp
    have "D \<longrightarrow> (\<forall>x \<in> set (take k ?sl). slot_dchecks_hold ar (slot_start x))"
      using dc by (auto dest: in_set_takeD)
    with new sz show ?thesis
      by (simp add: branch_consistent_def push_and_swap_total push_and_swap_set)
  qed
  show ?thesis
  proof (cases thread_bound)
    case True
    from PurgeInternal_consistent [OF cons rd, of ?t]
    obtain k where eq: "PurgeInternal D ar ?t s
             = Inr (s\<lparr> branch := (branch s)
                         \<lparr> slots := take k ?sl,
                           branch_size_in_bytes := of_nat (slots_total (take k ?sl)) \<rparr>,
                       root := (root s)
                         \<lparr> size_in_bytes := size_in_bytes (root s) - of_nat (slots_total (drop k ?sl)),
                           count := count (root s) - of_nat (length ?sl - k) \<rparr>,
                       events := events s
                         @ map (\<lambda>x. free_slot ar (slot_start x)) (rev (drop k ?sl)) \<rparr>)"
      and le: "slots_total (take k ?sl) \<le> unat ?t"
      by blast
    from res True en np ndm fit eq
    have "branch s' = (branch s)\<lparr> slots := push_and_swap rand
                                     \<lparr>slot_start = ss, usable_size = usable\<rparr> (take k ?sl),
                                   branch_size_in_bytes := of_nat (slots_total (take k ?sl)) + usable,
                                   to_be_freed_working_memory :=
                                     to_be_freed_working_memory (branch s) \<rparr>"
      by (auto simp: Quarantine_def Quarantine_thread_bound_def Let_def not_less [symmetric]
          split: if_splits)
    with key [OF le, of "to_be_freed_working_memory (branch s)"] show ?thesis by simp
  next
    case False
    from PurgeInternalWithDefferedFree_consistent [OF cons rd, of ?t]
    obtain k where eq: "PurgeInternalWithDefferedFree D ?t s
             = Inr (s\<lparr> branch := (branch s)
                         \<lparr> slots := take k ?sl,
                           branch_size_in_bytes := of_nat (slots_total (take k ?sl)) \<rparr>,
                       root := (root s)
                         \<lparr> size_in_bytes := size_in_bytes (root s) - of_nat (slots_total (drop k ?sl)),
                           count := count (root s) - of_nat (length ?sl - k) \<rparr> \<rparr>,
                    map slot_start (rev (drop k ?sl)))"
      and le: "length ?sl - k < kMaxFreeTimesPerPurge \<longrightarrow> slots_total (take k ?sl) \<le> unat ?t"
      by blast
    from cap False eq have "length ?sl - k < kMaxFreeTimesPerPurge"
      by (simp add: deferred_evictions_def)
    with le have le': "slots_total (take k ?sl) \<le> unat ?t" by simp
    from res False en np ndm fit eq
    have "branch s' = (branch s)\<lparr> slots := push_and_swap rand
                                     \<lparr>slot_start = ss, usable_size = usable\<rparr> (take k ?sl),
                                   branch_size_in_bytes := of_nat (slots_total (take k ?sl)) + usable,
                                   to_be_freed_working_memory := True \<rparr>"
      by (auto simp: Quarantine_def Quarantine_shared_def Let_def not_less [symmetric]
          split: if_splits sum.splits)
    with key [OF le'] show ?thesis by simp
  qed
qed

subsection \<open>Claims about the quarantine\<close>

text \<open>
  C2 (amended). For every \<^verbatim>\<open>Quarantine(object, slot_span, slot_start, usable_size)\<close>
  call on an enabled, unpaused branch of either kind, for a slot span that is not
  direct-mapped and with \<open>usable_size\<close> above the branch's capacity (in a build
  with DCHECKs, \<open>usable_size\<close> being the span's slot usable size, as the function
  checks first): the object is freed synchronously through the allocator root,
  \<^verbatim>\<open>quarantine_miss_count\<close> of the root grows by exactly one, and nothing else
  changes: not the slot vector, not the branch's byte count, not the root's
  count, cumulative count or sizes.
\<close>

theorem C2_over_capacity_is_a_miss:
  assumes "enable_quarantine (branch s)"
    and "pause_quarantine (branch s) = 0"
    and "\<not> IsDirectMappedBucket ar slot_span"
    and "D \<longrightarrow> usable = GetSlotUsableSize ar slot_span"
    and "branch_capacity_in_bytes (branch s) < usable"
  shows "Quarantine thread_bound D B ar rand object slot_span ss usable s
         = Inr (s\<lparr> events := events s @ [FreeNoHooksImmediate object slot_span ss],
                    root := (root s)\<lparr> quarantine_miss_count :=
                                          quarantine_miss_count (root s) + 1 \<rparr> \<rparr>)"
  using assms
  by (cases D; cases thread_bound)
    (simp_all add: Quarantine_def Quarantine_thread_bound_def Quarantine_shared_def Let_def)

text \<open>
  \<^verbatim>\<open>Purge()\<close> on a configured, consistent branch whose entries all have a non-zero
  usable size: the call returns, the byte count is 0, the slot vector is empty,
  and the allocator root has received exactly one \<^verbatim>\<open>FreeNoHooksImmediate\<close> for
  every entry the branch held, from the back of the vector to its front; the
  root's count and byte count drop by what was held.
\<close>

lemma Purge_drains_branch:
  assumes cons: "branch_consistent D ar (branch s)"
    and rd: "root_readable (branch s)"
    and nz: "\<forall>x \<in> set (slots (branch s)). usable_size x \<noteq> 0"
  shows "Purge D ar s
         = Inr (s\<lparr> branch := (branch s)\<lparr> slots := [], branch_size_in_bytes := 0 \<rparr>,
                    root := (root s)
                      \<lparr> size_in_bytes := size_in_bytes (root s) - branch_size_in_bytes (branch s),
                        count := count (root s) - of_nat (length (slots (branch s))) \<rparr>,
                    events := events s
                      @ map (\<lambda>x. free_slot ar (slot_start x)) (rev (slots (branch s))) \<rparr>)"
proof -
  let ?sl = "slots (branch s)"
  from PurgeInternal_consistent [OF cons rd, of 0]
  obtain k where k: "k \<le> length ?sl"
    and eq: "PurgeInternal D ar 0 s
             = Inr (s\<lparr> branch := (branch s)
                         \<lparr> slots := take k ?sl,
                           branch_size_in_bytes := of_nat (slots_total (take k ?sl)) \<rparr>,
                       root := (root s)
                         \<lparr> size_in_bytes := size_in_bytes (root s) - of_nat (slots_total (drop k ?sl)),
                           count := count (root s) - of_nat (length ?sl - k) \<rparr>,
                       events := events s
                         @ map (\<lambda>x. free_slot ar (slot_start x)) (rev (drop k ?sl)) \<rparr>)"
    and le: "slots_total (take k ?sl) \<le> unat (0 :: 64 word)"
    by blast
  from le have z: "slots_total (take k ?sl) = 0" by simp
  have "\<forall>x \<in> set (take k ?sl). usable_size x \<noteq> 0"
    using nz by (meson in_set_takeD)
  with z have e: "take k ?sl = []" by (rule slots_total_zero)
  then have d: "drop k ?sl = ?sl" by (metis append_Nil append_take_drop_id)
  have l: "length ?sl - k = length ?sl"
    using e k by (cases "k = 0") auto
  have t: "(of_nat (slots_total ?sl) :: 64 word) = branch_size_in_bytes (branch s)"
  proof -
    from cons have "slots_total ?sl = unat (branch_size_in_bytes (branch s))"
      by (simp add: branch_consistent_def)
    then show ?thesis by simp
  qed
  show ?thesis
    unfolding Purge_def eq by (simp add: e d l t)
qed

text \<open>
  On a branch whose \<^verbatim>\<open>root_\<close> was never assigned, \<^verbatim>\<open>Purge()\<close> does not return a
  state: \<^verbatim>\<open>PurgeInternal\<close> ends with a read through the pointer.
\<close>

lemma Purge_needs_root:
  assumes "\<not> root_readable (branch s)"
  shows "\<exists>e. Purge D ar s = Inl e"
  using assms by (simp add: Purge_def PurgeInternal_def split: sum.splits prod.splits)

text \<open>
  C1 (amended). Take a consistent branch that is enabled and unpaused, and a
  \<^verbatim>\<open>Quarantine\<close> call for a span that is not direct-mapped with
  \<open>usable_size\<close> at most the capacity, so that the call inserts the entry. For a
  thread-bound branch, and for a shared branch whenever the two-phase purge of
  the call takes out fewer than \<^verbatim>\<open>kMaxFreeTimesPerPurge\<close> entries, the call
  returns, the new entry is in the slot vector, and the branch's byte count is
  at most its capacity.
\<close>

theorem C1_insert_keeps_size_within_capacity:
  assumes cons: "branch_consistent D ar (branch s)"
    and en: "enable_quarantine (branch s)"
    and np: "pause_quarantine (branch s) = 0"
    and ndm: "\<not> IsDirectMappedBucket ar slot_span"
    and us: "D \<longrightarrow> usable = GetSlotUsableSize ar slot_span"
    and fit: "usable \<le> branch_capacity_in_bytes (branch s)"
    and cap: "thread_bound
              \<or> deferred_evictions D (branch_capacity_in_bytes (branch s) - usable) s
                  < kMaxFreeTimesPerPurge"
  shows "\<exists>s'. Quarantine thread_bound D B ar rand object slot_span ss usable s = Inr s'
           \<and> \<lparr> slot_start = ss, usable_size = usable \<rparr> \<in> set (slots (branch s'))
           \<and> branch_capacity_in_bytes (branch s') = branch_capacity_in_bytes (branch s)
           \<and> branch_size_in_bytes (branch s') \<le> branch_capacity_in_bytes (branch s')"
proof (cases thread_bound)
  case True
  from en have rd: "root_readable (branch s)" by (simp add: root_readable_def)
  let ?sl = "slots (branch s)" and ?t = "branch_capacity_in_bytes (branch s) - usable"
  from PurgeInternal_consistent [OF cons rd, of ?t]
  obtain k where k: "k \<le> length ?sl"
    and eq: "PurgeInternal D ar ?t s
             = Inr (s\<lparr> branch := (branch s)
                         \<lparr> slots := take k ?sl,
                           branch_size_in_bytes := of_nat (slots_total (take k ?sl)) \<rparr>,
                       root := (root s)
                         \<lparr> size_in_bytes := size_in_bytes (root s) - of_nat (slots_total (drop k ?sl)),
                           count := count (root s) - of_nat (length ?sl - k) \<rparr>,
                       events := events s
                         @ map (\<lambda>x. free_slot ar (slot_start x)) (rev (drop k ?sl)) \<rparr>)"
    and le: "slots_total (take k ?sl) \<le> unat ?t"
    by blast
  have u: "unat (of_nat (slots_total (take k ?sl)) :: 64 word) = slots_total (take k ?sl)"
  proof (rule unat_of_nat_total_take)
    show "unat (branch_size_in_bytes (branch s)) = slots_total ?sl"
      using cons by (simp add: branch_consistent_def)
  qed
  have "(of_nat (slots_total (take k ?sl)) :: 64 word) + usable
        \<le> branch_capacity_in_bytes (branch s)"
    using fit le u by (intro insert_fits) simp_all
  then show ?thesis
    using True en np ndm us fit eq
    by (simp add: Quarantine_def Quarantine_thread_bound_def Let_def not_less [symmetric]
        push_and_swap_set)
next
  case False
  from en have rd: "root_readable (branch s)" by (simp add: root_readable_def)
  let ?sl = "slots (branch s)" and ?t = "branch_capacity_in_bytes (branch s) - usable"
  from PurgeInternalWithDefferedFree_consistent [OF cons rd, of ?t]
  obtain k where k: "k \<le> length ?sl"
    and eq: "PurgeInternalWithDefferedFree D ?t s
             = Inr (s\<lparr> branch := (branch s)
                         \<lparr> slots := take k ?sl,
                           branch_size_in_bytes := of_nat (slots_total (take k ?sl)) \<rparr>,
                       root := (root s)
                         \<lparr> size_in_bytes := size_in_bytes (root s) - of_nat (slots_total (drop k ?sl)),
                           count := count (root s) - of_nat (length ?sl - k) \<rparr> \<rparr>,
                    map slot_start (rev (drop k ?sl)))"
    and le: "length ?sl - k < kMaxFreeTimesPerPurge \<longrightarrow> slots_total (take k ?sl) \<le> unat ?t"
    by blast
  from cap False eq have "length ?sl - k < kMaxFreeTimesPerPurge"
    by (simp add: deferred_evictions_def)
  with le have le': "slots_total (take k ?sl) \<le> unat ?t" by simp
  have u: "unat (of_nat (slots_total (take k ?sl)) :: 64 word) = slots_total (take k ?sl)"
  proof (rule unat_of_nat_total_take)
    show "unat (branch_size_in_bytes (branch s)) = slots_total ?sl"
      using cons by (simp add: branch_consistent_def)
  qed
  have fits: "(of_nat (slots_total (take k ?sl)) :: 64 word) + usable
        \<le> branch_capacity_in_bytes (branch s)"
    using fit le' u by (intro insert_fits) simp_all
  have "D \<longrightarrow> (\<forall>a \<in> set (map slot_start (rev (drop k ?sl))). slot_dchecks_hold ar a)"
    using cons by (auto simp: branch_consistent_def dest: in_set_dropD)
  then have bf: "BatchFree D ar (map slot_start (rev (drop k ?sl))) evs
                 = Inr (evs @ map (free_slot ar) (map slot_start (rev (drop k ?sl))))" for evs
    by (rule BatchFree_ok)
  show ?thesis
    using False en np ndm us fit eq fits
    by (simp add: Quarantine_def Quarantine_shared_def Let_def not_less [symmetric] bf
        push_and_swap_set)
qed


subsection \<open>Concrete branches\<close>

definition sample_root :: "(uintptr_t \<Rightarrow> bool) \<Rightarrow> (uintptr_t \<Rightarrow> size_t) \<Rightarrow> PartitionRoot" where
  "sample_root direct_mapped usable =
     \<lparr> IsDirectMappedBucket = direct_mapped,
       GetSlotUsableSize = usable,
       SlotStartToObject = (\<lambda>s. s),
       FromSlotStart = drop_bit 14,
       FromObject = drop_bit 14,
       brp_enabled = False \<rparr>"

definition fresh_root :: SchedulerLoopQuarantineRoot where
  "fresh_root = \<lparr> size_in_bytes = 0, count = 0, cumulative_count = 0,
                  cumulative_size_in_bytes = 0, quarantine_miss_count = 0 \<rparr>"

definition empty_state :: "size_t \<Rightarrow> slq_state" where
  "empty_state capacity =
     \<lparr> branch = \<lparr> enable_quarantine = True, enable_zapping = False, leak_on_destruction = False,
                  pause_quarantine = 0, slots = [], branch_size_in_bytes = 0,
                  branch_capacity_in_bytes = capacity, to_be_freed_working_memory = True,
                  root_assigned = True \<rparr>,
       root = fresh_root,
       events = [] \<rparr>"

definition two_slot_state :: slq_state where
  "two_slot_state =
     \<lparr> branch = \<lparr> enable_quarantine = True, enable_zapping = False, leak_on_destruction = False,
                  pause_quarantine = 0,
                  slots = [\<lparr> slot_start = 0x100000204000, usable_size = 16 \<rparr>,
                           \<lparr> slot_start = 0x100000208000, usable_size = 32 \<rparr>],
                  branch_size_in_bytes = 48,
                  branch_capacity_in_bytes = 64, to_be_freed_working_memory = True,
                  root_assigned = True \<rparr>,
       root = \<lparr> size_in_bytes = 48, count = 2, cumulative_count = 2,
                cumulative_size_in_bytes = 48, quarantine_miss_count = 0 \<rparr>,
       events = [] \<rparr>"

text \<open>
  A branch as its constructor leaves it, before any \<^verbatim>\<open>Configure\<close>: the member
  initialisers of the header, and \<^verbatim>\<open>root_\<close> not assigned.
\<close>

definition unconfigured_state :: slq_state where
  "unconfigured_state =
     \<lparr> branch = \<lparr> enable_quarantine = False, enable_zapping = False, leak_on_destruction = False,
                  pause_quarantine = 0, slots = [], branch_size_in_bytes = 0,
                  branch_capacity_in_bytes = 0, to_be_freed_working_memory = False,
                  root_assigned = False \<rparr>,
       root = fresh_root,
       events = [] \<rparr>"

lemma Purge_unconfigured_state: "Purge D ar unconfigured_state = Inl undefined_behavior"
  by (simp add: Purge_def PurgeInternal_def PurgeInternal_loop.simps unconfigured_state_def
      root_readable_def)

lemma two_slot_state_consistent:
  "branch_consistent True (sample_root dm us) (branch two_slot_state)"
  by (simp add: branch_consistent_def two_slot_state_def slots_total_def slot_dchecks_hold_def
      sample_root_def)

theorem C2_over_capacity_witness:
  "Quarantine False True False (sample_root (\<lambda>span. False) (\<lambda>span. 200)) 7
     0x100000210000 0x40000084 0x100000210000 200 (empty_state 100)
   = Inr ((empty_state 100)
            \<lparr> events := [FreeNoHooksImmediate 0x100000210000 0x40000084 0x100000210000],
              root := fresh_root \<lparr> quarantine_miss_count := 1 \<rparr> \<rparr>)"
  using C2_over_capacity_is_a_miss [where s = "empty_state 100"
      and ar = "sample_root (\<lambda>span. False) (\<lambda>span. 200)" and slot_span = "0x40000084"
      and D = True and usable = 200 and thread_bound = False and B = False and rand = 7
      and object = "0x100000210000" and ss = "0x100000210000"]
  by (simp add: empty_state_def sample_root_def fresh_root_def)

theorem C2_direct_mapped_counterexample:
  "enable_quarantine (branch (empty_state 100))
   \<and> pause_quarantine (branch (empty_state 100)) = 0
   \<and> branch_capacity_in_bytes (branch (empty_state 100)) < (0x200000 :: size_t)
   \<and> Quarantine False True False (sample_root (\<lambda>span. True) (\<lambda>span. 0x200000)) 7
        0x100000400000 0x40000100 0x100000400000 0x200000 (empty_state 100)
      = Inr ((empty_state 100)
               \<lparr> events := [FreeNoHooksImmediate 0x100000400000 0x40000100 0x100000400000] \<rparr>)
   \<and> quarantine_miss_count (root ((empty_state 100)
               \<lparr> events := [FreeNoHooksImmediate 0x100000400000 0x40000100 0x100000400000] \<rparr>))
      = quarantine_miss_count (root (empty_state 100))"
  by (simp add: Quarantine_def Quarantine_shared_def empty_state_def sample_root_def)

lemma Purge_two_slot_state:
  "Purge True (sample_root (\<lambda>span. False) (\<lambda>span. 16)) two_slot_state
   = Inr (two_slot_state
            \<lparr> branch := (branch two_slot_state) \<lparr> slots := [], branch_size_in_bytes := 0 \<rparr>,
              root := (root two_slot_state) \<lparr> size_in_bytes := 0, count := 0 \<rparr>,
              events := [FreeNoHooksImmediate 0x100000208000 0x40000082 0x100000208000,
                         FreeNoHooksImmediate 0x100000204000 0x40000081 0x100000204000] \<rparr>)"
proof -
  have nz: "\<forall>x \<in> set (slots (branch two_slot_state)). usable_size x \<noteq> 0"
    by (simp add: two_slot_state_def)
  have rd: "root_readable (branch two_slot_state)"
    by (simp add: root_readable_def two_slot_state_def)
  show ?thesis
    using Purge_drains_branch [OF two_slot_state_consistent rd nz]
    by (simp add: two_slot_state_def free_slot_def sample_root_def drop_bit_eq_div)
qed



theorem C1_insert_witness:
  "\<exists>s'. Quarantine False True False (sample_root (\<lambda>span. False) (\<lambda>span. 32)) 7
          0x100000210000 0x40000084 0x100000210000 32 two_slot_state = Inr s'
        \<and> \<lparr> slot_start = 0x100000210000, usable_size = 32 \<rparr> \<in> set (slots (branch s'))
        \<and> branch_capacity_in_bytes (branch s') = 64
        \<and> branch_size_in_bytes (branch s') \<le> branch_capacity_in_bytes (branch s')"
proof -
  have ev: "deferred_evictions True (branch_capacity_in_bytes (branch two_slot_state) - 32)
              two_slot_state < kMaxFreeTimesPerPurge"
    by (simp add: deferred_evictions_def PurgeInternalWithDefferedFree_def
        PurgeInternalWithDefferedFree_loop.simps two_slot_state_def kMaxFreeTimesPerPurge_def)
  have fit: "(32 :: size_t) \<le> branch_capacity_in_bytes (branch two_slot_state)"
    by (simp add: two_slot_state_def)
  show ?thesis
    using C1_insert_keeps_size_within_capacity [OF two_slot_state_consistent _ _ _ _ fit disjI2 [OF ev],
        where slot_span = "0x40000084" and B = False and rand = 7 and object = "0x100000210000"
          and ss = "0x100000210000"]
    by (simp add: two_slot_state_def sample_root_def)
qed

text \<open>
  A shared branch at its capacity of 1025 bytes with 1025 one-byte entries. A
  1025-byte object needs all of them evicted, the two-phase purge stops at 1024.
\<close>

definition unit_slots :: "nat \<Rightarrow> QuarantineSlot list" where
  "unit_slots n =
     map (\<lambda>i. \<lparr> slot_start = of_nat (0x100000204000 + 16 * i), usable_size = 1 \<rparr>) [0..<n]"

definition full_shared_state :: slq_state where
  "full_shared_state =
     \<lparr> branch = \<lparr> enable_quarantine = True, enable_zapping = False, leak_on_destruction = False,
                  pause_quarantine = 0, slots = unit_slots 1025, branch_size_in_bytes = 1025,
                  branch_capacity_in_bytes = 1025, to_be_freed_working_memory = True,
                  root_assigned = True \<rparr>,
       root = \<lparr> size_in_bytes = 1025, count = 1025, cumulative_count = 1025,
                cumulative_size_in_bytes = 1025, quarantine_miss_count = 0 \<rparr>,
       events = [] \<rparr>"

lemma slots_total_unit_slots: "slots_total (unit_slots n) = n"
  by (induction n) (simp_all add: unit_slots_def slots_total_def)

lemma take_unit_slots: "take k (unit_slots n) = unit_slots (min k n)"
  by (simp add: unit_slots_def take_map min_def)

lemma unit_slots_start_nonzero:
  assumes "x \<in> set (unit_slots 1025)"
  shows "slot_start x \<noteq> 0"
proof -
  from assms obtain i where i: "i < 1025"
    and x: "slot_start x = (of_nat (0x100000204000 + 16 * i) :: 64 word)"
    by (auto simp: unit_slots_def)
  have "unat (of_nat (0x100000204000 + 16 * i) :: 64 word) = 0x100000204000 + 16 * i"
    using i by (simp only: unat_of_nat) simp
  then have "unat (slot_start x) \<noteq> 0" using x by simp
  then show ?thesis by (simp add: unat_eq_0)
qed

lemma full_shared_state_consistent:
  "branch_consistent True (sample_root dm us) (branch full_shared_state)"
  using unit_slots_start_nonzero
  by (simp add: branch_consistent_def full_shared_state_def slots_total_unit_slots
      slot_dchecks_hold_def sample_root_def)

theorem C1_shared_purge_cap_counterexample:
  "\<not> (\<forall>s'. Quarantine False True False (sample_root (\<lambda>span. False) (\<lambda>span. 1025)) 7
             0x100000210000 0x40000084 0x100000210000 1025 full_shared_state = Inr s'
           \<longrightarrow> branch_size_in_bytes (branch s') \<le> branch_capacity_in_bytes (branch s'))"
proof
  let ?ar = "sample_root (\<lambda>span. False) (\<lambda>span. 1025)"
  let ?sl = "slots (branch full_shared_state)"
  assume all: "\<forall>s'. Quarantine False True False ?ar 7
             0x100000210000 0x40000084 0x100000210000 1025 full_shared_state = Inr s'
           \<longrightarrow> branch_size_in_bytes (branch s') \<le> branch_capacity_in_bytes (branch s')"
  have sl: "?sl = unit_slots 1025" by (simp add: full_shared_state_def)
  have rd: "root_readable (branch full_shared_state)"
    by (simp add: root_readable_def full_shared_state_def)
  from PurgeInternalWithDefferedFree_consistent
    [OF full_shared_state_consistent [of "\<lambda>span. False" "\<lambda>span. 1025"] rd, where t = 0]
  obtain k where k: "k \<le> length ?sl"
    and eq: "PurgeInternalWithDefferedFree True 0 full_shared_state
             = Inr (full_shared_state\<lparr> branch := (branch full_shared_state)
                         \<lparr> slots := take k ?sl,
                           branch_size_in_bytes := of_nat (slots_total (take k ?sl)) \<rparr>,
                       root := (root full_shared_state)
                         \<lparr> size_in_bytes := size_in_bytes (root full_shared_state)
                             - of_nat (slots_total (drop k ?sl)),
                           count := count (root full_shared_state) - of_nat (length ?sl - k) \<rparr> \<rparr>,
                    map slot_start (rev (drop k ?sl)))"
    and cap: "length ?sl - k \<le> kMaxFreeTimesPerPurge"
    by blast
  have len: "length ?sl = 1025" by (simp add: sl unit_slots_def)
  from k cap len have k1: "1 \<le> k" and k2: "k \<le> 1025"
    by (simp_all add: kMaxFreeTimesPerPurge_def)
  have tot: "slots_total (take k ?sl) = k"
    using k2 by (simp add: sl take_unit_slots slots_total_unit_slots)
  have "\<forall>a \<in> set (map slot_start (rev (drop k ?sl))). slot_dchecks_hold ?ar a"
    using unit_slots_start_nonzero
    by (auto simp: sl slot_dchecks_hold_def sample_root_def dest: in_set_dropD)
  then have bf: "BatchFree True ?ar (map slot_start (rev (drop k ?sl))) evs
                 = Inr (evs @ map (free_slot ?ar) (map slot_start (rev (drop k ?sl))))" for evs
    by (intro BatchFree_ok) simp
  have cfg: "enable_quarantine (branch full_shared_state)"
    "pause_quarantine (branch full_shared_state) = 0"
    "branch_capacity_in_bytes (branch full_shared_state) = 1025"
    by (simp_all add: full_shared_state_def)
  have ar: "\<not> IsDirectMappedBucket ?ar 0x40000084" "GetSlotUsableSize ?ar 0x40000084 = 1025"
    by (simp_all add: sample_root_def)
  obtain s' where q: "Quarantine False True False ?ar 7
             0x100000210000 0x40000084 0x100000210000 1025 full_shared_state = Inr s'"
    and sz: "branch_size_in_bytes (branch s') = of_nat k + 1025"
    and cp: "branch_capacity_in_bytes (branch s') = 1025"
    using cfg ar eq bf by (simp add: Quarantine_def Quarantine_shared_def Let_def tot)
  have "unat (of_nat k + 1025 :: 64 word) = k + 1025"
    using k2 by (simp add: unat_word_ariths unat_of_nat)
  then have "\<not> (of_nat k + 1025 :: 64 word) \<le> 1025"
    using k1 by (simp add: word_le_nat_alt)
  with all q sz cp show False by auto
qed


section \<open>Runtime statistics of the quarantine (scheduler\_loop\_quarantine\_runtime\_stats.h, .cc)\<close>

text \<open>
  Modelled from the spec: partition\_alloc\_base/time/time.h is not among the sources.
  \<^verbatim>\<open>base::TimeTicks\<close> and \<^verbatim>\<open>base::TimeDelta\<close> are integer counts of one time unit;
  the null \<^verbatim>\<open>TimeTicks\<close> and the zero \<^verbatim>\<open>TimeDelta\<close> are 0. The conversions
  \<^verbatim>\<open>TimeDelta::InNanoseconds()\<close> and \<^verbatim>\<open>base::Nanoseconds(n)\<close> between a
  \<^verbatim>\<open>TimeDelta\<close> and an \<^verbatim>\<open>int64_t\<close> number of nanoseconds are the two fields of
  \<open>TimeBase\<close>. The \<^verbatim>\<open>int64_t\<close> sums are unbounded integers here. Member names lose
  their trailing underscore.
\<close>

type_synonym TimeTicks = int
type_synonym TimeDelta = int

record TimeBase =
  InNanoseconds :: "TimeDelta \<Rightarrow> int"
  Nanoseconds :: "int \<Rightarrow> TimeDelta"

definition kMaxTimesToTrack :: nat where
  "kMaxTimesToTrack = 1024"

record BucketStats =
  paused :: int
  cycled :: int
  valid :: bool
  idx :: nat
  reported_idx :: nat
  sum_ns :: int
  average_ns :: int
  bucket_times :: "int list"

definition BucketStats_initial :: BucketStats where
  "BucketStats_initial =
     \<lparr> paused = 0, cycled = 0, valid = False, idx = 0, reported_idx = kMaxTimesToTrack - 1,
       sum_ns = 0, average_ns = 0, bucket_times = replicate kMaxTimesToTrack 0 \<rparr>"

definition Reset :: "BucketStats \<Rightarrow> BucketStats" where
  "Reset b = b\<lparr> valid := False, idx := 0, sum_ns := 0, average_ns := 0,
               reported_idx := kMaxTimesToTrack - 1 \<rparr>"

definition Reported :: "BucketStats \<Rightarrow> BucketStats" where
  "Reported b = (if valid b then b\<lparr> paused := 0, cycled := 0, reported_idx := idx b \<rparr> else b)"

definition IncreasePaused :: "BucketStats \<Rightarrow> BucketStats" where
  "IncreasePaused b = b\<lparr> paused := paused b + 1 \<rparr>"

text \<open>
  \<^verbatim>\<open>RecordValue\<close>. In \<^verbatim>\<open>sum_ns_ / kMaxTimesToTrack\<close> the divisor is a \<^verbatim>\<open>size_t\<close>, so
  the sum is converted to an unsigned 64-bit value before the division.
\<close>

definition RecordValue :: "int \<Rightarrow> BucketStats \<Rightarrow> BucketStats" where
  "RecordValue value_ns b =
     (let sum1 = sum_ns b + (if value_ns \<noteq> 0 then value_ns else 1)
                  - (if valid b then bucket_times b ! idx b else 0);
          times1 = (bucket_times b)[idx b := value_ns];
          hit = (idx b = reported_idx b);
          valid1 = (valid b \<or> hit);
          cycled1 = (if hit then cycled b + 1 else cycled b);
          idx1 = (if idx b = length (bucket_times b) - 1 then 0 else idx b + 1);
          average1 = (if valid1 then (sum1 mod 2 ^ 64) div int kMaxTimesToTrack
                      else average_ns b)
      in b\<lparr> sum_ns := sum1, bucket_times := times1, valid := valid1, cycled := cycled1,
            idx := idx1, average_ns := average1 \<rparr>)"

record SchedulerLoopQuarantineRuntimeStats =
  initialized :: bool
  max_above_avg_zap_delta :: TimeDelta
  long_zap_pause_delta :: TimeDelta
  pause_until :: TimeTicks
  zap_buckets :: "BucketStats list"
  purge_buckets :: "BucketStats list"
  total_time_buckets :: "BucketStats list"

definition RuntimeStats_initial :: SchedulerLoopQuarantineRuntimeStats where
  "RuntimeStats_initial =
     \<lparr> initialized = False, max_above_avg_zap_delta = 0, long_zap_pause_delta = 0,
       pause_until = 0, zap_buckets = [], purge_buckets = [], total_time_buckets = [] \<rparr>"

definition record_at :: "nat \<Rightarrow> int \<Rightarrow> BucketStats list \<Rightarrow> BucketStats list" where
  "record_at bucket_index value_ns buckets =
     buckets[bucket_index := RecordValue value_ns (buckets ! bucket_index)]"

text \<open>
  \<^verbatim>\<open>AddStats\<close>. Indexing a bucket vector past its end is undefined behaviour. The
  average of the zap bucket is read before the new zap time is recorded, its
  \<^verbatim>\<open>valid()\<close> flag after.
\<close>

definition AddStats ::
  "bool \<Rightarrow> TimeBase \<Rightarrow> nat \<Rightarrow> TimeTicks \<Rightarrow> TimeTicks \<Rightarrow> TimeTicks \<Rightarrow> TimeTicks
     \<Rightarrow> SchedulerLoopQuarantineRuntimeStats
     \<Rightarrow> pa_error + SchedulerLoopQuarantineRuntimeStats" where
  "AddStats DCHECK_IS_ON tb bucket_index quarantine_start purge_start zap_start quarantine_end st =
     (if \<not> initialized st then Inr st
      else if DCHECK_IS_ON \<and> (quarantine_start = 0 \<or> quarantine_end = 0) then Inl DCHECK_failed
      else if length (total_time_buckets st) \<le> bucket_index
              \<or> length (zap_buckets st) \<le> bucket_index
      then Inl undefined_behavior
      else
        let st1 = st\<lparr> total_time_buckets :=
                         record_at bucket_index
                           (InNanoseconds tb (quarantine_end - quarantine_start))
                           (total_time_buckets st) \<rparr>;
            average_ns_v = average_ns (zap_buckets st ! bucket_index)
        in if zap_start \<noteq> 0 \<and> DCHECK_IS_ON \<and> purge_start = 0 then Inl DCHECK_failed
           else if (zap_start \<noteq> 0 \<or> purge_start \<noteq> 0)
                   \<and> length (purge_buckets st) \<le> bucket_index
           then Inl undefined_behavior
           else
             let zap_time = (if zap_start \<noteq> 0 then quarantine_end - zap_start else 0);
                 st2 = (if zap_start \<noteq> 0
                        then st1\<lparr> purge_buckets :=
                                     record_at bucket_index
                                       (InNanoseconds tb (zap_start - purge_start))
                                       (purge_buckets st1),
                                   zap_buckets :=
                                     record_at bucket_index (InNanoseconds tb zap_time)
                                       (zap_buckets st1) \<rparr>
                        else if purge_start \<noteq> 0
                        then st1\<lparr> purge_buckets :=
                                     record_at bucket_index
                                       (InNanoseconds tb (quarantine_end - purge_start))
                                       (purge_buckets st1) \<rparr>
                        else st1);
                 should_pause_on_long_zap = (max_above_avg_zap_delta st \<noteq> 0 \<and> zap_time \<noteq> 0)
             in if \<not> valid (zap_buckets st2 ! bucket_index) \<or> \<not> should_pause_on_long_zap
                then Inr st2
                else if max_above_avg_zap_delta st < zap_time - Nanoseconds tb average_ns_v
                then (if DCHECK_IS_ON \<and> long_zap_pause_delta st = 0 then Inl DCHECK_failed
                      else Inr (st2\<lparr> pause_until := quarantine_end + long_zap_pause_delta st,
                                      zap_buckets := (zap_buckets st2)
                                        [bucket_index :=
                                           IncreasePaused (zap_buckets st2 ! bucket_index)] \<rparr>))
                else Inr st2)"

text \<open>
  \<^verbatim>\<open>InitOrResetStats\<close>; \<^verbatim>\<open>BucketIndexLookup::kNumBuckets\<close> (bucket\_lookup.h, not among
  the sources) is the argument \<open>kNumBuckets\<close>.
\<close>

definition InitOrResetStats ::
  "nat \<Rightarrow> TimeDelta \<Rightarrow> TimeDelta \<Rightarrow> SchedulerLoopQuarantineRuntimeStats
     \<Rightarrow> SchedulerLoopQuarantineRuntimeStats" where
  "InitOrResetStats kNumBuckets pause_delay max_above_avg_zap_delta_v st =
     (let st1 = (if \<not> initialized st
                 then st\<lparr> initialized := True,
                          zap_buckets := zap_buckets st
                            @ replicate (kNumBuckets - length (zap_buckets st)) BucketStats_initial,
                          purge_buckets := purge_buckets st
                            @ replicate (kNumBuckets - length (purge_buckets st)) BucketStats_initial,
                          total_time_buckets := total_time_buckets st
                            @ replicate (kNumBuckets - length (total_time_buckets st))
                                BucketStats_initial \<rparr>
                 else st\<lparr> zap_buckets := map Reset (zap_buckets st),
                          purge_buckets := map Reset (purge_buckets st),
                          total_time_buckets := map Reset (total_time_buckets st) \<rparr>)
      in st1\<lparr> long_zap_pause_delta := pause_delay,
              max_above_avg_zap_delta := max_above_avg_zap_delta_v \<rparr>)"

definition ShouldPause :: "SchedulerLoopQuarantineRuntimeStats \<Rightarrow> TimeTicks \<Rightarrow> bool" where
  "ShouldPause st start =
     (if \<not> initialized st \<or> pause_until st = 0 \<or> start = 0 then False
      else start < pause_until st)"

definition ReportedStats ::
  "SchedulerLoopQuarantineRuntimeStats \<Rightarrow> SchedulerLoopQuarantineRuntimeStats" where
  "ReportedStats st =
     (if \<not> initialized st then st
      else st\<lparr> zap_buckets := map Reported (zap_buckets st),
               purge_buckets := map Reported (purge_buckets st),
               total_time_buckets := map Reported (total_time_buckets st) \<rparr>)"

text \<open>
  C9 (amended). Let the tracker be initialised and configured with
  \<^verbatim>\<open>max_above_avg_zap_delta > 0\<close> and \<^verbatim>\<open>long_zap_pause_delta > 0\<close>, and let
  \<^verbatim>\<open>AddStats\<close> record a non-zero zap time (its time stamps non-null where the
  function's DCHECKs ask for it) for a bucket whose window is valid once that
  time is recorded. If the zap time exceeds the bucket's rolling average, as it
  was before the recording, by more than \<^verbatim>\<open>max_above_avg_zap_delta\<close>, then
  \<^verbatim>\<open>pause_until\<close> is set to the quarantine end time plus
  \<^verbatim>\<open>long_zap_pause_delta\<close>, and from then on \<^verbatim>\<open>ShouldPause(t)\<close> with a
  non-null \<open>t\<close> (and a non-null \<^verbatim>\<open>pause_until\<close>) is true exactly when
  \<open>t < pause_until\<close>.
\<close>

theorem C9_long_zap_sets_pause:
  assumes init: "initialized st"
    and idx: "bucket_index < length (zap_buckets st)" "bucket_index < length (purge_buckets st)"
      "bucket_index < length (total_time_buckets st)"
    and dchecks: "D \<longrightarrow> quarantine_start \<noteq> 0 \<and> quarantine_end \<noteq> 0 \<and> purge_start \<noteq> 0"
    and cfg: "0 < max_above_avg_zap_delta st" "0 < long_zap_pause_delta st"
    and zap: "zap_start \<noteq> 0" "quarantine_end - zap_start \<noteq> 0"
    and window: "valid (RecordValue (InNanoseconds tb (quarantine_end - zap_start))
                          (zap_buckets st ! bucket_index))"
    and long: "max_above_avg_zap_delta st
               < (quarantine_end - zap_start)
                 - Nanoseconds tb (average_ns (zap_buckets st ! bucket_index))"
  shows "\<exists>st'. AddStats D tb bucket_index quarantine_start purge_start zap_start quarantine_end st
               = Inr st'
           \<and> pause_until st' = quarantine_end + long_zap_pause_delta st
           \<and> (\<forall>t. t \<noteq> 0 \<and> pause_until st' \<noteq> 0 \<longrightarrow> ShouldPause st' t = (t < pause_until st'))"
  using assms
  by (cases D) (simp_all add: AddStats_def Let_def record_at_def ShouldPause_def)

definition unit_time :: TimeBase where
  "unit_time = \<lparr> InNanoseconds = (\<lambda>d. d), Nanoseconds = (\<lambda>n. n) \<rparr>"

definition steady_bucket :: BucketStats where
  "steady_bucket =
     \<lparr> paused = 0, cycled = 1, valid = True, idx = 5, reported_idx = 1023,
       sum_ns = 10240, average_ns = 10, bucket_times = replicate 1024 10 \<rparr>"

definition steady_stats :: SchedulerLoopQuarantineRuntimeStats where
  "steady_stats =
     \<lparr> initialized = True, max_above_avg_zap_delta = 100, long_zap_pause_delta = 1000,
       pause_until = 0, zap_buckets = [steady_bucket], purge_buckets = [steady_bucket],
       total_time_buckets = [steady_bucket] \<rparr>"

theorem C9_long_zap_witness:
  "\<exists>st'. AddStats True unit_time 0 5000 5100 5200 5700 steady_stats = Inr st'
         \<and> pause_until st' = 6700
         \<and> (\<forall>t. t \<noteq> 0 \<and> pause_until st' \<noteq> 0 \<longrightarrow> ShouldPause st' t = (t < pause_until st'))"
  using C9_long_zap_sets_pause [where st = steady_stats and bucket_index = 0 and D = True
      and quarantine_start = 5000 and purge_start = 5100 and zap_start = 5200
      and quarantine_end = 5700 and tb = unit_time]
  by (simp add: steady_stats_def steady_bucket_def unit_time_def RecordValue_def Let_def)

text \<open>
  A tracker that has just been initialised has no valid window: a zap time far
  above the average (0) does not set \<^verbatim>\<open>pause_until\<close>. And \<^verbatim>\<open>ShouldPause\<close> is false
  for the null time stamp whatever \<^verbatim>\<open>pause_until\<close> is.
\<close>

definition fresh_stats :: SchedulerLoopQuarantineRuntimeStats where
  "fresh_stats = InitOrResetStats 1 1000 100 RuntimeStats_initial"

definition paused_stats :: SchedulerLoopQuarantineRuntimeStats where
  "paused_stats = steady_stats\<lparr> pause_until := 6700 \<rparr>"

definition first_sample :: "int \<Rightarrow> BucketStats" where
  "first_sample value_ns =
     \<lparr> paused = 0, cycled = 0, valid = False, idx = 1, reported_idx = 1023,
       sum_ns = value_ns, average_ns = 0,
       bucket_times = (replicate 1024 0)[0 := value_ns] \<rparr>"

definition fresh_stats_after :: SchedulerLoopQuarantineRuntimeStats where
  "fresh_stats_after =
     \<lparr> initialized = True, max_above_avg_zap_delta = 100, long_zap_pause_delta = 1000,
       pause_until = 0, zap_buckets = [first_sample 500], purge_buckets = [first_sample 100],
       total_time_buckets = [first_sample 700] \<rparr>"

theorem C9_window_not_valid_counterexample:
  "0 < max_above_avg_zap_delta fresh_stats
   \<and> 0 < long_zap_pause_delta fresh_stats
   \<and> max_above_avg_zap_delta fresh_stats
       < (5700 - 5200) - Nanoseconds unit_time (average_ns (zap_buckets fresh_stats ! 0))
   \<and> AddStats True unit_time 0 5000 5100 5200 5700 fresh_stats = Inr fresh_stats_after
   \<and> pause_until fresh_stats_after = 0
   \<and> \<not> ShouldPause fresh_stats_after 5800
   \<and> (0 :: TimeTicks) < pause_until paused_stats
   \<and> \<not> ShouldPause paused_stats 0"
  by (simp add: fresh_stats_def InitOrResetStats_def RuntimeStats_initial_def
      BucketStats_initial_def kMaxTimesToTrack_def AddStats_def Let_def record_at_def
      RecordValue_def unit_time_def ShouldPause_def paused_stats_def steady_stats_def
      fresh_stats_after_def first_sample_def)


section \<open>AddressPoolManager::Pool (address\_pool\_manager.cc)\<close>

text \<open>
  Modelled from the spec: base/bits.h, which defines \<^verbatim>\<open>bits::Align\<close>, is not among the
  sources. The spec has the requested size rounded up to whole super-pages,
  \<open>ceil(size / alignment)\<close> of them. The rounded size is a natural number here, the
  value the spec gives; for a size within one alignment unit of \<open>2^64\<close> it is
  \<open>2^64\<close>. Where the source adds the rounded size to an address, the sum is taken
  in \<^verbatim>\<open>uintptr_t\<close>.
\<close>

definition Align :: "size_t \<Rightarrow> size_t \<Rightarrow> nat" where
  "Align size_v alignment =
     (unat size_v + unat alignment - 1) div unat alignment * unat alignment"

text \<open>
  \<^verbatim>\<open>AddressPoolManager::Pool\<close>. The \<^verbatim>\<open>std::bitset<kMaxBits>\<close> is the set of the
  positions whose bit is set; \<^verbatim>\<open>kMaxBits\<close> (address\_pool\_manager.h, not among the
  sources) is the argument \<open>kMaxBits\<close> where it matters. Bit positions and counts
  are natural numbers: they are bounded by \<^verbatim>\<open>total_bits_\<close> plus the number of
  super-pages of a rounded size, far below \<open>2^64\<close>. \<^verbatim>\<open>address_end_\<close> exists only in a
  build with DCHECKs and is read only there. The lock is not modelled: every
  operation runs under it from start to end.
\<close>

record Pool =
  alloc_bitset :: "nat set"
  total_bits :: nat
  address_begin :: uintptr_t
  address_end :: uintptr_t
  bit_hint :: nat


text \<open>
  The inner \<^verbatim>\<open>for\<close> loop of \<^verbatim>\<open>FindChunk\<close> over \<^verbatim>\<open>curr_bit\<close>. It only reads
  positions below \<^verbatim>\<open>end_bit\<close>, which is at most \<^verbatim>\<open>total_bits_\<close> and so, by the
  constructor's CHECK, at most \<^verbatim>\<open>kMaxBits\<close>.
\<close>

function FindChunk_scan ::
  "nat set \<Rightarrow> nat \<Rightarrow> nat \<Rightarrow> nat \<Rightarrow> bool \<Rightarrow> nat \<Rightarrow> nat \<times> nat \<times> bool \<times> nat" where
  "FindChunk_scan bits end_bit curr_bit beg_bit found hint =
     (if curr_bit < end_bit then
        (if curr_bit \<in> bits
         then FindChunk_scan bits end_bit (curr_bit + 1) (curr_bit + 1) False
                (if hint = curr_bit then hint + 1 else hint)
         else FindChunk_scan bits end_bit (curr_bit + 1) beg_bit found hint)
      else (curr_bit, beg_bit, found, hint))"
  by pat_completeness auto
termination
  by (relation "measure (\<lambda>(bits, end_bit, curr_bit, beg_bit, found, hint). end_bit - curr_bit)")
    auto

declare FindChunk_scan.simps [simp del]

text \<open>The loop that marks \<^verbatim>\<open>[beg_bit, end_bit)\<close> as allocated.\<close>

function FindChunk_fill :: "bool \<Rightarrow> nat set \<Rightarrow> nat \<Rightarrow> nat \<Rightarrow> pa_error + nat set" where
  "FindChunk_fill DCHECK_IS_ON bits i end_bit =
     (if i < end_bit then
        (if DCHECK_IS_ON \<and> i \<in> bits then Inl DCHECK_failed
         else FindChunk_fill DCHECK_IS_ON (insert i bits) (i + 1) end_bit)
      else Inr bits)"
  by pat_completeness auto
termination
  by (relation "measure (\<lambda>(d, bits, i, end_bit). end_bit - i)") auto

declare FindChunk_fill.simps [simp del]

lemma FindChunk_scan_curr:
  "FindChunk_scan bits e c b f h = (c', b', f', h') \<Longrightarrow> c' = max c e"
proof (induction bits e c b f h rule: FindChunk_scan.induct)
  case (1 bits e c b f h)
  then show ?case
    by (subst (asm) (3) FindChunk_scan.simps) (auto split: if_splits)
qed

lemma FindChunk_scan_not_found:
  "FindChunk_scan bits e c b True h = (c', b', False, h') \<Longrightarrow> c < e"
  by (subst (asm) FindChunk_scan.simps) (auto split: if_splits)

text \<open>
  The outer \<^verbatim>\<open>while (true)\<close> loop. The source returns the address 0 when no chunk
  is found; that \<^verbatim>\<open>return 0\<close> is the result \<open>None\<close> here, a found chunk is
  \<open>Some address\<close>.
\<close>

function FindChunk_loop ::
  "bool \<Rightarrow> nat \<Rightarrow> nat \<Rightarrow> Pool \<Rightarrow> nat \<Rightarrow> nat \<Rightarrow> pa_error + (Pool \<times> uintptr_t option)" where
  "FindChunk_loop DCHECK_IS_ON required_size need_bits pool beg_bit curr_bit =
     (let end_bit = beg_bit + need_bits
      in if total_bits pool < end_bit then Inr (pool, None)
         else
           case FindChunk_scan (alloc_bitset pool) end_bit curr_bit beg_bit True (bit_hint pool) of
             (curr_bit', beg_bit', found, hint') \<Rightarrow>
               if found then
                 (case FindChunk_fill DCHECK_IS_ON (alloc_bitset pool) beg_bit' end_bit of
                    Inl e \<Rightarrow> Inl e
                  | Inr bits' \<Rightarrow>
                      let hint'' = (if hint' = beg_bit' then end_bit else hint');
                          address = address_begin pool + of_nat beg_bit' * kSuperPageSize
                      in if DCHECK_IS_ON \<and> \<not> address + of_nat required_size \<le> address_end pool
                         then Inl DCHECK_failed
                         else Inr (pool\<lparr> alloc_bitset := bits', bit_hint := hint'' \<rparr>,
                                   Some address))
               else FindChunk_loop DCHECK_IS_ON required_size need_bits
                      (pool\<lparr> bit_hint := hint' \<rparr>) beg_bit' curr_bit')"
  by pat_completeness auto
termination
proof (relation "measure (\<lambda>(d, r, n, pool, beg_bit, curr_bit). total_bits pool - curr_bit)",
    goal_cases)
  case 1
  then show ?case by simp
next
  case (2 D required_size need_bits pool beg_bit curr_bit end_bit curr_bit' y beg_bit' ya
      found hint')
  have scan: "FindChunk_scan (alloc_bitset pool) end_bit curr_bit beg_bit True
                (bit_hint pool) = (curr_bit', beg_bit', False, hint')"
    using 2(3) [symmetric] 2(4) [symmetric] 2(5) [symmetric] 2(6) by simp
  from FindChunk_scan_curr [OF scan] FindChunk_scan_not_found [OF scan] 2(2)
  show ?case by simp
qed

declare FindChunk_loop.simps [simp del]

definition FindChunk :: "bool \<Rightarrow> size_t \<Rightarrow> Pool \<Rightarrow> pa_error + (Pool \<times> uintptr_t option)" where
  "FindChunk DCHECK_IS_ON requested_size pool =
     (let required_size = Align requested_size kSuperPageSize;
          need_bits = drop_bit kSuperPageShift required_size
      in FindChunk_loop DCHECK_IS_ON required_size need_bits pool (bit_hint pool) (bit_hint pool))"

text \<open>
  The loop of \<^verbatim>\<open>FreeChunk\<close>. \<^verbatim>\<open>std::bitset::test\<close> and \<^verbatim>\<open>reset\<close> fail for a position
  that is not below \<^verbatim>\<open>kMaxBits\<close>.
\<close>

function FreeChunk_clear ::
  "bool \<Rightarrow> nat \<Rightarrow> nat set \<Rightarrow> nat \<Rightarrow> nat \<Rightarrow> pa_error + nat set" where
  "FreeChunk_clear DCHECK_IS_ON kMaxBits bits i end_bit =
     (if i < end_bit then
        (if kMaxBits \<le> i then Inl out_of_range
         else if DCHECK_IS_ON \<and> i \<notin> bits then Inl DCHECK_failed
         else FreeChunk_clear DCHECK_IS_ON kMaxBits (bits - {i}) (i + 1) end_bit)
      else Inr bits)"
  by pat_completeness auto
termination
  by (relation "measure (\<lambda>(d, k, bits, i, end_bit). end_bit - i)") auto

declare FreeChunk_clear.simps [simp del]

definition FreeChunk :: "bool \<Rightarrow> nat \<Rightarrow> uintptr_t \<Rightarrow> size_t \<Rightarrow> Pool \<Rightarrow> pa_error + Pool" where
  "FreeChunk DCHECK_IS_ON kMaxBits address free_size pool =
     (if DCHECK_IS_ON \<and> address AND kSuperPageOffsetMask \<noteq> 0 then Inl DCHECK_failed
      else
        let size_v = Align free_size kSuperPageSize
        in if DCHECK_IS_ON \<and> \<not> address_begin pool \<le> address then Inl DCHECK_failed
           else if DCHECK_IS_ON \<and> \<not> address + of_nat size_v \<le> address_end pool
           then Inl DCHECK_failed
           else
             let beg_bit = unat ((address - address_begin pool) div kSuperPageSize);
                 end_bit = beg_bit + size_v div unat kSuperPageSize
             in case FreeChunk_clear DCHECK_IS_ON kMaxBits (alloc_bitset pool) beg_bit end_bit of
                  Inl e \<Rightarrow> Inl e
                | Inr bits' \<Rightarrow>
                    Inr (pool\<lparr> alloc_bitset := bits',
                              bit_hint := min (bit_hint pool) beg_bit \<rparr>))"

subsection \<open>The loops\<close>



lemma FreeChunk_clear_ok:
  "{i..<e} \<subseteq> bits \<Longrightarrow> e \<le> K \<Longrightarrow> FreeChunk_clear D K bits i e = Inr (bits - {i..<e})"
proof (induction D K bits i e rule: FreeChunk_clear.induct)
  case (1 D K bits i e)
  show ?case
  proof (cases "i < e")
    case False
    then show ?thesis by (subst FreeChunk_clear.simps) simp
  next
    case True
    with 1(2) have mem: "i \<in> bits" by auto
    from True 1(3) have k: "\<not> K \<le> i" by simp
    have s: "{i + 1..<e} \<subseteq> bits - {i}" using 1(2) by auto
    have "FreeChunk_clear D K bits i e = FreeChunk_clear D K (bits - {i}) (i + 1) e"
      using True mem k by (subst FreeChunk_clear.simps) simp
    also have "\<dots> = Inr (bits - {i} - {i + 1..<e})"
      using True mem k s 1(3) by (intro 1(1)) auto
    also have "bits - {i} - {i + 1..<e} = bits - {i..<e}"
      using True by auto
    finally show ?thesis .
  qed
qed

lemma FreeChunk_clear_unset:
  "\<not> {i..<e} \<subseteq> bits \<Longrightarrow> e \<le> K \<Longrightarrow> FreeChunk_clear True K bits i e = Inl DCHECK_failed"
proof (induction True K bits i e rule: FreeChunk_clear.induct)
  case (1 K bits i e)
  from 1(2) have lt: "i < e" by (cases "i < e") auto
  with 1(3) have k: "\<not> K \<le> i" by simp
  show ?case
  proof (cases "i \<in> bits")
    case False
    with lt k show ?thesis by (subst FreeChunk_clear.simps) simp
  next
    case True
    have ns: "\<not> {i + 1..<e} \<subseteq> bits - {i}"
    proof
      assume a: "{i + 1..<e} \<subseteq> bits - {i}"
      have "{i..<e} \<subseteq> bits"
      proof
        fix x assume "x \<in> {i..<e}"
        then have "x = i \<or> x \<in> {i + 1..<e}" by auto
        with True a show "x \<in> bits" by auto
      qed
      with 1(2) show False by simp
    qed
    have "FreeChunk_clear True K bits i e = FreeChunk_clear True K (bits - {i}) (i + 1) e"
      using lt True k by (subst FreeChunk_clear.simps) simp
    also have "\<dots> = Inl DCHECK_failed"
      using lt True k ns 1(3) by (intro 1(1)) auto
    finally show ?thesis .
  qed
qed

subsection \<open>Word arithmetic of super-pages\<close>

lemma unat_2p21: "unat (2 ^ 21 :: 64 word) = 2 ^ 21"
  by simp



lemma unat_of_nat_times_sp:
  assumes "b * 2 ^ 21 < (2 :: nat) ^ 64"
  shows "unat (of_nat b * 2 ^ 21 :: 64 word) = b * 2 ^ 21"
proof -
  have "(of_nat b * 2 ^ 21 :: 64 word) = of_nat (b * 2 ^ 21)" by simp
  then have "unat (of_nat b * 2 ^ 21 :: 64 word) = (b * 2 ^ 21) mod 2 ^ 64"
    by (simp only: unat_of_nat) simp
  with assms show ?thesis by simp
qed

lemma unat_add_of_nat_times_sp:
  fixes a :: "64 word"
  assumes "unat a + b * 2 ^ 21 < 2 ^ 64"
  shows "unat (a + of_nat b * 2 ^ 21) = unat a + b * 2 ^ 21"
proof -
  have b: "b * 2 ^ 21 < (2 :: nat) ^ 64" using assms by simp
  have "unat a + unat (of_nat b * 2 ^ 21 :: 64 word) < 2 ^ LENGTH(64)"
    using assms unfolding unat_of_nat_times_sp [OF b] by simp
  then have "unat (a + of_nat b * 2 ^ 21) = unat a + unat (of_nat b * 2 ^ 21 :: 64 word)"
    using unat_add_lem [of a "of_nat b * 2 ^ 21"] by blast
  then show ?thesis unfolding unat_of_nat_times_sp [OF b] .
qed



lemma chunk_arith:
  fixes S M :: nat
  assumes "b + need \<le> tot" and "ua + tot * S < M"
  shows "ua + b * S + need * S \<le> ua + tot * S"
    and "ua + b * S + need * S < M"
    and "ua + b * S < M"
proof -
  have "(b + need) * S \<le> tot * S" using assms(1) by (rule mult_le_mono1)
  then have le: "b * S + need * S \<le> tot * S" by (simp only: add_mult_distrib)
  then show "ua + b * S + need * S \<le> ua + tot * S" by linarith
  with assms(2) show "ua + b * S + need * S < M" by linarith
  then show "ua + b * S < M" by linarith
qed

lemma chunk_end_le:
  fixes a rs :: "64 word"
  assumes "unat a + tot * 2 ^ 21 < 2 ^ 64"
    and "b + need \<le> tot"
    and "unat rs = need * 2 ^ 21"
  shows "a + of_nat b * 2 ^ 21 + rs \<le> a + of_nat tot * 2 ^ 21"
proof -
  note ar = chunk_arith [OF assms(2) assms(1)]
  have u1: "unat (a + of_nat b * 2 ^ 21) = unat a + b * 2 ^ 21"
    using ar(3) by (rule unat_add_of_nat_times_sp)
  have "unat (a + of_nat b * 2 ^ 21) + unat rs < 2 ^ 64"
    unfolding u1 assms(3) by (rule ar(2))
  then have "unat (a + of_nat b * 2 ^ 21) + unat rs < 2 ^ LENGTH(64)" by simp
  then have "unat (a + of_nat b * 2 ^ 21 + rs) = unat (a + of_nat b * 2 ^ 21) + unat rs"
    using unat_add_lem [of "a + of_nat b * 2 ^ 21" rs] by blast
  then have u2: "unat (a + of_nat b * 2 ^ 21 + rs) = unat a + b * 2 ^ 21 + need * 2 ^ 21"
    unfolding u1 assms(3) .
  have u3: "unat (a + of_nat tot * 2 ^ 21) = unat a + tot * 2 ^ 21"
    using assms(1) by (rule unat_add_of_nat_times_sp)
  show ?thesis
    unfolding word_le_nat_alt u2 u3 by (rule ar(1))
qed





subsection \<open>Well-formed pools\<close>

lemma kSuperPageSize_eq: "kSuperPageSize = 2 ^ 21"
  by (simp add: kSuperPageSize_def kSuperPageShift_def)


lemma unat_kSuperPageSize: "unat kSuperPageSize = 2 ^ 21"
  by (simp only: kSuperPageSize_eq unat_2p21)

lemma Align_eq: "Align s kSuperPageSize = (unat s + 2 ^ 21 - 1) div 2 ^ 21 * 2 ^ 21"
  by (simp only: Align_def unat_kSuperPageSize)

text \<open>The number of bits \<^verbatim>\<open>FindChunk\<close> and \<^verbatim>\<open>FreeChunk\<close> compute for a size.\<close>

definition need_bits_of :: "size_t \<Rightarrow> nat" where
  "need_bits_of requested_size = drop_bit kSuperPageShift (Align requested_size kSuperPageSize)"

lemma need_bits_of_ceil: "need_bits_of s = (unat s + 2 ^ 21 - 1) div 2 ^ 21"
proof -
  have "need_bits_of s = (unat s + 2 ^ 21 - 1) div 2 ^ 21 * 2 ^ 21 div 2 ^ 21"
    by (simp only: need_bits_of_def kSuperPageShift_def Align_eq drop_bit_eq_div)
  also have "\<dots> = (unat s + 2 ^ 21 - 1) div 2 ^ 21"
    by (rule div_mult_self_is_m) simp
  finally show ?thesis .
qed





text \<open>
  What the constructor establishes and every operation keeps: the pool's length
  is a \<^verbatim>\<open>size_t\<close>, the hint and the set bits are within \<^verbatim>\<open>total_bits_\<close>, the base is
  super-page aligned, and in a build with DCHECKs the pool does not wrap around
  the end of the address space (\<^verbatim>\<open>DCHECK_LT(address_begin_, address_end_)\<close>).
\<close>

definition pool_wf :: "bool \<Rightarrow> nat \<Rightarrow> Pool \<Rightarrow> bool" where
  "pool_wf DCHECK_IS_ON kMaxBits pool \<longleftrightarrow>
     total_bits pool \<le> kMaxBits
     \<and> total_bits pool * 2 ^ 21 < 2 ^ 64
     \<and> bit_hint pool \<le> total_bits pool
     \<and> alloc_bitset pool \<subseteq> {..<total_bits pool}
     \<and> address_begin pool AND kSuperPageOffsetMask = 0
     \<and> address_end pool = address_begin pool + of_nat (total_bits pool) * kSuperPageSize
     \<and> (DCHECK_IS_ON \<longrightarrow> unat (address_begin pool) + total_bits pool * 2 ^ 21 < 2 ^ 64)"





text \<open>
  \<^verbatim>\<open>FreeChunk\<close> keeps a pool well-formed whatever it is called with, so every state
  a pool can reach from its constructor is well-formed.
\<close>

lemma FreeChunk_clear_subset:
  "FreeChunk_clear D K bits i e = Inr bits' \<Longrightarrow> bits' \<subseteq> bits"
proof (induction D K bits i e rule: FreeChunk_clear.induct)
  case (1 D K bits i e)
  show ?case
  proof (cases "i < e")
    case False
    with 1(2) show ?thesis by (subst (asm) FreeChunk_clear.simps) simp
  next
    case True
    from 1(2) True have k: "\<not> K \<le> i" and d: "\<not> (D \<and> i \<notin> bits)"
      and r: "FreeChunk_clear D K (bits - {i}) (i + 1) e = Inr bits'"
      by (subst (asm) FreeChunk_clear.simps, simp split: if_splits)+
    from 1(1) [OF True k d r] show ?thesis by blast
  qed
qed

lemma FreeChunk_keeps_wf:
  assumes "pool_wf D K pool" and "FreeChunk D K address free_size pool = Inr pool'"
  shows "pool_wf D K pool'"
proof -
  from assms(2) obtain bits' where
    c: "FreeChunk_clear D K (alloc_bitset pool)
          (unat ((address - address_begin pool) div kSuperPageSize))
          (unat ((address - address_begin pool) div kSuperPageSize)
             + Align free_size kSuperPageSize div unat kSuperPageSize) = Inr bits'"
    and p: "pool' = pool\<lparr> alloc_bitset := bits',
                          bit_hint := min (bit_hint pool)
                            (unat ((address - address_begin pool) div kSuperPageSize)) \<rparr>"
    by (auto simp: FreeChunk_def Let_def split: if_splits sum.splits)
  from FreeChunk_clear_subset [OF c] assms(1) show ?thesis
    unfolding p by (auto simp: pool_wf_def)
qed

lemma need_bits_of_0: "need_bits_of 0 = 0"
  unfolding need_bits_of_ceil by simp

text \<open>
  C10. For every well-formed pool state, \<^verbatim>\<open>FindChunk\<close> with a request of 0 bytes
  does not take the \<^verbatim>\<open>return 0\<close> branch and leaves the pool, its bitmap included,
  as it was: it returns \<open>address_begin + bit_hint * kSuperPageSize\<close>, which is the
  end address of the pool, one past its last byte, when \<open>bit_hint = total_bits\<close>.
\<close>

theorem C10_find_chunk_of_zero_bytes:
  assumes "pool_wf D K pool"
  shows "FindChunk D 0 pool
         = Inr (pool, Some (address_begin pool + of_nat (bit_hint pool) * kSuperPageSize))
       \<and> (bit_hint pool = total_bits pool
            \<longrightarrow> address_begin pool + of_nat (bit_hint pool) * kSuperPageSize = address_end pool)"
proof -
  let ?h = "bit_hint pool"
  from assms have ht: "?h \<le> total_bits pool"
    and en: "address_end pool = address_begin pool + of_nat (total_bits pool) * 2 ^ 21"
    and nw: "D \<longrightarrow> unat (address_begin pool) + total_bits pool * 2 ^ 21 < 2 ^ 64"
    by (simp_all add: pool_wf_def kSuperPageSize_eq)
  have a0: "Align 0 kSuperPageSize = 0" unfolding Align_eq by simp
  have scan: "FindChunk_scan (alloc_bitset pool) ?h ?h ?h True ?h = (?h, ?h, True, ?h)"
    by (subst FindChunk_scan.simps) simp
  have fill: "FindChunk_fill D (alloc_bitset pool) ?h ?h = Inr (alloc_bitset pool)"
    by (subst FindChunk_fill.simps) simp
  have dcheck: "D \<longrightarrow> address_begin pool + of_nat ?h * kSuperPageSize + 0 \<le> address_end pool"
  proof
    assume D
    with nw have n: "unat (address_begin pool) + total_bits pool * 2 ^ 21 < 2 ^ 64" by simp
    have h0: "?h + 0 \<le> total_bits pool" using ht by simp
    have z: "unat (0 :: 64 word) = 0 * 2 ^ 21" by simp
    show "address_begin pool + of_nat ?h * kSuperPageSize + 0 \<le> address_end pool"
      unfolding en kSuperPageSize_eq using n h0 z by (rule chunk_end_le)
  qed
  have "FindChunk D 0 pool
        = Inr (pool\<lparr>alloc_bitset := alloc_bitset pool, bit_hint := ?h\<rparr>,
               Some (address_begin pool + of_nat ?h * kSuperPageSize))"
    unfolding FindChunk_def a0 Let_def
    using ht scan fill dcheck
    by (subst FindChunk_loop.simps) (simp add: Let_def)
  then show ?thesis using en by (simp add: kSuperPageSize_eq)
qed

text \<open>
  The range of bits \<^verbatim>\<open>FreeChunk\<close> computes from its arguments, and the conditions
  under which its range DCHECKs and the bitset's own range check pass.
\<close>

definition FreeChunk_beg_bit :: "Pool \<Rightarrow> uintptr_t \<Rightarrow> nat" where
  "FreeChunk_beg_bit pool address = unat ((address - address_begin pool) div kSuperPageSize)"

definition FreeChunk_end_bit :: "Pool \<Rightarrow> uintptr_t \<Rightarrow> size_t \<Rightarrow> nat" where
  "FreeChunk_end_bit pool address free_size =
     FreeChunk_beg_bit pool address + Align free_size kSuperPageSize div unat kSuperPageSize"

definition FreeChunk_in_range :: "bool \<Rightarrow> nat \<Rightarrow> Pool \<Rightarrow> uintptr_t \<Rightarrow> size_t \<Rightarrow> bool" where
  "FreeChunk_in_range DCHECK_IS_ON kMaxBits pool address free_size \<longleftrightarrow>
     (DCHECK_IS_ON \<longrightarrow> address_begin pool \<le> address
                        \<and> address + of_nat (Align free_size kSuperPageSize) \<le> address_end pool)
     \<and> FreeChunk_end_bit pool address free_size \<le> kMaxBits"

text \<open>
  C8 (amended). In a build with DCHECKs a \<^verbatim>\<open>FreeChunk(address, size)\<close> call with an
  address that is not super-page aligned fails a check. The size is not checked:
  it is rounded up to whole super-pages. For an aligned address whose computed
  range passes the range checks, the call clears every bit of the range and sets
  the hint to \<open>min(hint, beg)\<close> when all bits of the range are set; when one is
  not, a build with DCHECKs fails the assertion on that bit.
\<close>

theorem C8_free_chunk_checks:
  "(address AND kSuperPageOffsetMask \<noteq> 0
      \<longrightarrow> FreeChunk True K address free_size pool = Inl DCHECK_failed)
   \<and> (address AND kSuperPageOffsetMask = 0 \<and> FreeChunk_in_range D K pool address free_size
        \<and> {FreeChunk_beg_bit pool address..<FreeChunk_end_bit pool address free_size}
            \<subseteq> alloc_bitset pool
      \<longrightarrow> FreeChunk D K address free_size pool
          = Inr (pool\<lparr> alloc_bitset := alloc_bitset pool
                          - {FreeChunk_beg_bit pool address
                             ..<FreeChunk_end_bit pool address free_size},
                        bit_hint := min (bit_hint pool) (FreeChunk_beg_bit pool address) \<rparr>))
   \<and> (address AND kSuperPageOffsetMask = 0 \<and> FreeChunk_in_range True K pool address free_size
        \<and> \<not> {FreeChunk_beg_bit pool address..<FreeChunk_end_bit pool address free_size}
              \<subseteq> alloc_bitset pool
      \<longrightarrow> FreeChunk True K address free_size pool = Inl DCHECK_failed)"
proof (intro conjI impI)
  assume "address AND kSuperPageOffsetMask \<noteq> 0"
  then show "FreeChunk True K address free_size pool = Inl DCHECK_failed"
    by (simp add: FreeChunk_def)
next
  let ?b = "FreeChunk_beg_bit pool address"
  let ?e = "FreeChunk_end_bit pool address free_size"
  assume a: "address AND kSuperPageOffsetMask = 0 \<and> FreeChunk_in_range D K pool address free_size
             \<and> {?b..<?e} \<subseteq> alloc_bitset pool"
  then have "FreeChunk_clear D K (alloc_bitset pool) ?b ?e = Inr (alloc_bitset pool - {?b..<?e})"
    by (intro FreeChunk_clear_ok) (simp_all add: FreeChunk_in_range_def)
  with a show "FreeChunk D K address free_size pool
               = Inr (pool\<lparr> alloc_bitset := alloc_bitset pool - {?b..<?e},
                             bit_hint := min (bit_hint pool) ?b \<rparr>)"
    by (simp add: FreeChunk_def Let_def FreeChunk_in_range_def FreeChunk_end_bit_def
        FreeChunk_beg_bit_def)
next
  let ?b = "FreeChunk_beg_bit pool address"
  let ?e = "FreeChunk_end_bit pool address free_size"
  assume a: "address AND kSuperPageOffsetMask = 0
             \<and> FreeChunk_in_range True K pool address free_size
             \<and> \<not> {?b..<?e} \<subseteq> alloc_bitset pool"
  then have "FreeChunk_clear True K (alloc_bitset pool) ?b ?e = Inl DCHECK_failed"
    by (intro FreeChunk_clear_unset) (simp_all add: FreeChunk_in_range_def)
  with a show "FreeChunk True K address free_size pool = Inl DCHECK_failed"
    by (simp add: FreeChunk_def Let_def FreeChunk_in_range_def FreeChunk_end_bit_def
        FreeChunk_beg_bit_def)
qed

subsection \<open>Sequences of calls\<close>

text \<open>
  A sequence of \<^verbatim>\<open>FindChunk\<close> and \<^verbatim>\<open>FreeChunk\<close> calls on one pool, together with the
  list of live allocations: the address and requested size of every chunk that
  was returned and not yet freed.
\<close>

datatype pool_op = FindChunk_op size_t | FreeChunk_op uintptr_t size_t

type_synonym live_chunks = "(uintptr_t \<times> size_t) list"

fun pool_step ::
  "bool \<Rightarrow> nat \<Rightarrow> pool_op \<Rightarrow> Pool \<times> live_chunks \<Rightarrow> pa_error + (Pool \<times> live_chunks)" where
  "pool_step D K (FindChunk_op requested_size) (pool, live) =
     (case FindChunk D requested_size pool of
        Inl e \<Rightarrow> Inl e
      | Inr (pool', None) \<Rightarrow> Inr (pool', live)
      | Inr (pool', Some address) \<Rightarrow> Inr (pool', (address, requested_size) # live))"
| "pool_step D K (FreeChunk_op address free_size) (pool, live) =
     (case FreeChunk D K address free_size pool of
        Inl e \<Rightarrow> Inl e
      | Inr pool' \<Rightarrow> Inr (pool', remove1 (address, free_size) live))"

fun pool_run ::
  "bool \<Rightarrow> nat \<Rightarrow> pool_op list \<Rightarrow> Pool \<times> live_chunks \<Rightarrow> pa_error + (Pool \<times> live_chunks)" where
  "pool_run D K [] st = Inr st"
| "pool_run D K (call # calls) st =
     (case pool_step D K call st of
        Inl e \<Rightarrow> Inl e
      | Inr st' \<Rightarrow> pool_run D K calls st')"



















subsection \<open>A pool of four super-pages\<close>

definition four_page_pool :: Pool where
  "four_page_pool =
     \<lparr> alloc_bitset = {}, total_bits = 4, address_begin = 0x100000000000,
       address_end = 0x100000800000, bit_hint = 0 \<rparr>"

definition full_pool :: Pool where
  "full_pool = four_page_pool\<lparr> alloc_bitset := {0, 1, 2, 3}, bit_hint := 4 \<rparr>"

lemmas pool_eval =
  FindChunk_def FindChunk_loop.simps FindChunk_scan.simps FindChunk_fill.simps
  FreeChunk_def FreeChunk_clear.simps Align_def kSuperPageSize_def kSuperPageShift_def
  kSuperPageOffsetMask_def Let_def





text \<open>
  A request of \<open>2^64 - 1\<close> bytes needs \<open>2^43\<close> bits, more than any pool has: the
  call finds no chunk and leaves the pool as it was.
\<close>

lemma FindChunk_largest_request:
  "pool_run True 8192 [FindChunk_op 0xFFFFFFFFFFFFFFFF] (four_page_pool, [])
   = Inr (four_page_pool, [])"
  by (simp add: four_page_pool_def pool_eval)

theorem C10_full_pool_witness:
  "FindChunk True 0 full_pool = Inr (full_pool, Some 0x100000800000)
   \<and> address_end full_pool = 0x100000800000"
proof -
  have wf: "pool_wf True 8192 full_pool"
    by (simp add: pool_wf_def full_pool_def four_page_pool_def kSuperPageSize_def
        kSuperPageShift_def kSuperPageOffsetMask_def)
  show ?thesis
    using C10_find_chunk_of_zero_bytes [OF wf]
    by (simp add: full_pool_def four_page_pool_def kSuperPageSize_def kSuperPageShift_def)
qed

theorem C8_free_chunk_witness:
  "FreeChunk True 8192 0x100000200000 0x400000 full_pool
   = Inr (full_pool\<lparr> alloc_bitset := {0, 3}, bit_hint := 1 \<rparr>)
   \<and> FreeChunk True 8192 0x100000200001 0x400000 full_pool = Inl DCHECK_failed
   \<and> FreeChunk True 8192 0x100000200000 0x400000 four_page_pool = Inl DCHECK_failed"
proof -
  have b: "FreeChunk_beg_bit full_pool 0x100000200000 = 1"
    "FreeChunk_end_bit full_pool 0x100000200000 0x400000 = 3"
    "FreeChunk_beg_bit four_page_pool 0x100000200000 = 1"
    "FreeChunk_end_bit four_page_pool 0x100000200000 0x400000 = 3"
    by (simp_all add: FreeChunk_beg_bit_def FreeChunk_end_bit_def full_pool_def
        four_page_pool_def Align_def kSuperPageSize_def kSuperPageShift_def)
  have r: "FreeChunk_in_range True 8192 full_pool 0x100000200000 0x400000"
    "FreeChunk_in_range True 8192 four_page_pool 0x100000200000 0x400000"
    unfolding FreeChunk_in_range_def b
    by (simp_all add: full_pool_def four_page_pool_def Align_def kSuperPageSize_def
        kSuperPageShift_def)
  have s: "{1..<3 :: nat} \<subseteq> {0, 1, 2, 3}" "\<not> {1..<3 :: nat} \<subseteq> {}"
    "{0, 1, 2, 3} - {1..<3 :: nat} = {0, 3}"
    by auto
  show ?thesis
    using C8_free_chunk_checks [where address = "0x100000200000" and D = True and K = 8192
        and free_size = "0x400000" and pool = full_pool]
      C8_free_chunk_checks [where address = "0x100000200001" and D = True and K = 8192
        and free_size = "0x400000" and pool = full_pool]
      C8_free_chunk_checks [where address = "0x100000200000" and D = True and K = 8192
        and free_size = "0x400000" and pool = four_page_pool]
      r s
    unfolding b
    by (simp add: full_pool_def four_page_pool_def kSuperPageOffsetMask_def kSuperPageSize_def
        kSuperPageShift_def)
qed

text \<open>A size of one byte is not super-page aligned; the call frees one super-page.\<close>

theorem C8_unaligned_size_counterexample:
  "(1 :: size_t) AND kSuperPageOffsetMask \<noteq> 0
   \<and> FreeChunk True 8192 0x100000000000 1 full_pool
     = Inr (full_pool\<lparr> alloc_bitset := {1, 2, 3}, bit_hint := 0 \<rparr>)"
  by (simp add: full_pool_def four_page_pool_def pool_eval insert_Diff_if)

end
